theory Spec2Isabelle
  imports Complex_Main "HOL-Library.Log_Nat"
begin

section \<open>The OpenInsider scraper: fetch, cache, filter, aggregate\<close>

text \<open>
  A shallow embedding of \<^verbatim>\<open>src/openinsiderData/openinsider_scraper.py\<close>
  (class \<^verbatim>\<open>OpenInsiderScraper\<close>). Python names are kept without their leading
  underscore. Strings are HOL strings; the embedding covers ASCII text (a HOL character
  is one byte, so a code point beyond ASCII is not a letter, a digit or a space here).
\<close>

subsection \<open>Strings\<close>

text \<open>
  \<^verbatim>\<open>str.lower\<close> on ASCII letters, \<^verbatim>\<open>str.replace(c, '')\<close> for a single
  character \<open>c\<close>, and \<^verbatim>\<open>str.strip()\<close>, which removes the characters that
  \<^verbatim>\<open>str.isspace\<close> accepts: in ASCII these are 0x09 to 0x0D, 0x1C to 0x1F and
  the blank.
\<close>

definition lower_char :: "char \<Rightarrow> char" where
  "lower_char c =
     (case map_of (zip ''ABCDEFGHIJKLMNOPQRSTUVWXYZ'' ''abcdefghijklmnopqrstuvwxyz'') c of
        Some d \<Rightarrow> d
      | None \<Rightarrow> c)"

definition lower :: "string \<Rightarrow> string" where
  "lower s = map lower_char s"

definition replace_char :: "char \<Rightarrow> string \<Rightarrow> string" where
  "replace_char c s = filter (\<lambda>x. x \<noteq> c) s"

definition is_space :: "char \<Rightarrow> bool" where
  "is_space c \<longleftrightarrow>
     c \<in> set [CHR 0x09, CHR 0x0A, CHR 0x0B, CHR 0x0C, CHR 0x0D,
              CHR 0x1C, CHR 0x1D, CHR 0x1E, CHR 0x1F, CHR 0x20]"

definition strip_by :: "(char \<Rightarrow> bool) \<Rightarrow> string \<Rightarrow> string" where
  "strip_by p s = rev (dropWhile p (rev (dropWhile p s)))"

definition strip :: "string \<Rightarrow> string" where
  "strip s = strip_by is_space s"

subsection \<open>Python floats\<close>

text \<open>
  A Python \<^verbatim>\<open>float\<close> is an IEEE binary64 value: a finite number (kept here as
  the rational it denotes), an infinity, or not-a-number. The two zeros are one value
  \<open>Finite 0\<close>: they compare equal and no function below tells them apart.
  \<open>flt\<close> is Python's \<^verbatim>\<open><\<close>, which is false as soon as one side is
  not-a-number, and \<open>fabs\<close> is \<^verbatim>\<open>abs\<close>.
\<close>

datatype pyfloat = Finite rat | PosInf | NegInf | NaN

fun flt :: "pyfloat \<Rightarrow> pyfloat \<Rightarrow> bool" where
  "flt NaN y = False"
| "flt x NaN = False"
| "flt (Finite a) (Finite b) = (a < b)"
| "flt (Finite a) PosInf = True"
| "flt (Finite a) NegInf = False"
| "flt PosInf y = False"
| "flt NegInf NegInf = False"
| "flt NegInf y = True"

fun fneg :: "pyfloat \<Rightarrow> pyfloat" where
  "fneg (Finite a) = Finite (- a)"
| "fneg PosInf = NegInf"
| "fneg NegInf = PosInf"
| "fneg NaN = NaN"

fun fabs :: "pyfloat \<Rightarrow> pyfloat" where
  "fabs (Finite a) = Finite \<bar>a\<bar>"
| "fabs PosInf = PosInf"
| "fabs NegInf = PosInf"
| "fabs NaN = NaN"

text \<open>
  Rounding a rational to binary64, to nearest with ties to even. For \<open>q > 0\<close>,
  \<open>ilog2 q\<close> is the exponent \<open>e\<close> with \<open>2\<^sup>e \<le> q < 2\<^sup>e\<^sup>+\<^sup>1\<close>; the spacing of
  the binary64 numbers around \<open>q\<close> is \<open>2\<^sup>e\<^sup>-\<^sup>5\<^sup>2\<close>, and \<open>2\<^sup>-\<^sup>1\<^sup>0\<^sup>7\<^sup>4\<close> in the
  subnormal range; a result of \<open>2\<^sup>1\<^sup>0\<^sup>2\<^sup>4\<close> or more is an infinity.
\<close>

definition round_half_even :: "rat \<Rightarrow> int" where
  "round_half_even q =
     (let f = \<lfloor>q\<rfloor>; d = q - of_int f
      in if d < 1 / 2 then f
         else if 1 / 2 < d then f + 1
         else if even f then f
         else f + 1)"

definition ilog2 :: "rat \<Rightarrow> int" where
  "ilog2 q =
     (let k = bitlen (fst (quotient_of q)) - bitlen (snd (quotient_of q))
      in if 2 powi k \<le> q then k else k - 1)"

definition b64_pos :: "rat \<Rightarrow> pyfloat" where
  "b64_pos q =
     (let e = max (ilog2 q) (- 1022);
          ulp = 2 powi (e - 52);
          v = of_int (round_half_even (q / ulp)) * ulp
      in if 2 powi 1024 \<le> v then PosInf else Finite v)"

definition b64_round :: "rat \<Rightarrow> pyfloat" where
  "b64_round q =
     (if q = 0 then Finite 0
      else if 0 < q then b64_pos q
      else fneg (b64_pos (- q)))"

subsection \<open>The builtin \<^verbatim>\<open>float(str)\<close>\<close>

text \<open>
  \<^verbatim>\<open>float(s)\<close> on a string (CPython, \<^verbatim>\<open>PyFloat_FromString\<close>): blanks
  (0x09 to 0x0D and 0x20) are removed at both ends; every underscore must stand between
  two digits and is then dropped; what remains is an optional sign followed by
  \<^verbatim>\<open>inf\<close>, \<^verbatim>\<open>infinity\<close> or \<^verbatim>\<open>nan\<close> in any case, or by a decimal
  numeral: digits with an optional point (at least one digit in all) and an optional
  exponent \<^verbatim>\<open>e\<close> or \<^verbatim>\<open>E\<close>, optional sign, at least one digit. The numeral
  is rounded correctly to binary64. Anything else raises \<^verbatim>\<open>ValueError\<close>, which is
  \<open>None\<close> here.
\<close>

definition is_digit :: "char \<Rightarrow> bool" where
  "is_digit c \<longleftrightarrow> c \<in> set ''0123456789''"

definition digit_val :: "char \<Rightarrow> int" where
  "digit_val c = of_char c - 48"

definition int_of_digits :: "string \<Rightarrow> int" where
  "int_of_digits s = foldl (\<lambda>n c. 10 * n + digit_val c) 0 s"

definition is_c_space :: "char \<Rightarrow> bool" where
  "is_c_space c \<longleftrightarrow>
     c \<in> set [CHR 0x09, CHR 0x0A, CHR 0x0B, CHR 0x0C, CHR 0x0D, CHR 0x20]"

fun underscores_ok :: "char \<Rightarrow> string \<Rightarrow> bool" where
  "underscores_ok prev [] = (prev \<noteq> CHR ''_'')"
| "underscores_ok prev (c # cs) =
     ((if c = CHR ''_'' then is_digit prev
       else if prev = CHR ''_'' then is_digit c
       else True)
      \<and> underscores_ok c cs)"

fun split_sign :: "string \<Rightarrow> bool \<times> string" where
  "split_sign [] = (False, [])"
| "split_sign (c # r) =
     (if c = CHR ''-'' then (True, r)
      else if c = CHR ''+'' then (False, r)
      else (False, c # r))"

definition parse_inf_nan :: "string \<Rightarrow> pyfloat option" where
  "parse_inf_nan s =
     (if lower s = ''inf'' \<or> lower s = ''infinity'' then Some PosInf
      else if lower s = ''nan'' then Some NaN
      else None)"

fun parse_exponent :: "string \<Rightarrow> int option" where
  "parse_exponent [] = Some 0"
| "parse_exponent (c # r) =
     (if c = CHR ''e'' \<or> c = CHR ''E'' then
        (case split_sign r of
           (neg, ds) \<Rightarrow>
             if ds \<noteq> [] \<and> list_all is_digit ds
             then Some (if neg then - int_of_digits ds else int_of_digits ds)
             else None)
      else None)"

fun split_fraction :: "string \<Rightarrow> string \<times> string" where
  "split_fraction [] = ([], [])"
| "split_fraction (c # r) =
     (if c = CHR ''.'' then (takeWhile is_digit r, dropWhile is_digit r)
      else ([], c # r))"

definition parse_decimal :: "string \<Rightarrow> rat option" where
  "parse_decimal s =
     (let ip = takeWhile is_digit s;
          (fp, r) = split_fraction (dropWhile is_digit s)
      in if ip = [] \<and> fp = [] then None
         else (case parse_exponent r of
                 None \<Rightarrow> None
               | Some e \<Rightarrow>
                   Some (of_int (int_of_digits (ip @ fp)) * 10 powi (e - int (length fp)))))"

definition py_float :: "string \<Rightarrow> pyfloat option" where
  "py_float v =
     (let s = strip_by is_c_space v
      in if \<not> underscores_ok (CHR 0x00) s then None
         else (case split_sign (replace_char (CHR ''_'') s) of
                 (neg, u) \<Rightarrow>
                   (case parse_inf_nan u of
                      Some f \<Rightarrow> Some (if neg then fneg f else f)
                    | None \<Rightarrow>
                        (case parse_decimal u of
                           None \<Rightarrow> None
                         | Some q \<Rightarrow> Some (b64_round (if neg then - q else q))))))"

subsection \<open>Configuration and the filter engine\<close>

text \<open>
  \<^verbatim>\<open>ScraperConfig\<close>, with the fields the pipeline reads (the output and logging
  settings are left out). The threshold \<^verbatim>\<open>min_transaction_value\<close> is a float
  and \<^verbatim>\<open>min_shares_traded\<close> an int; Python compares a float with an int by
  their exact values.
\<close>

record config =
  start_year :: int
  start_month :: int
  max_workers :: int
  retry_attempts :: int
  timeout :: int
  min_transaction_value :: pyfloat
  transaction_types :: "string list"
  exclude_companies :: "string list"
  include_companies :: "string list"
  min_shares_traded :: int
  cache_enabled :: bool
  cache_max_age :: int

text \<open>The dictionary \<^verbatim>\<open>insider_data\<close>: the twelve retained columns of a row.\<close>

record insider_data =
  filing_date :: string
  trade_date :: string
  ticker :: string
  company_name :: string
  owner_name :: string
  title :: string
  trade_type :: string
  price :: string
  qty :: string
  owned :: string
  change_pct :: string
  value' :: string

text \<open>
  \<^verbatim>\<open>_clean_numeric\<close>: the empty string and the tokens \<^verbatim>\<open>n/a\<close> and
  \<^verbatim>\<open>new\<close> (compared after \<^verbatim>\<open>lower()\<close>) give \<open>0.0\<close>; otherwise the
  characters \<^verbatim>\<open>$ , + %\<close> are removed and the rest goes to \<^verbatim>\<open>float\<close>,
  whose \<^verbatim>\<open>ValueError\<close> is caught and gives \<open>0.0\<close>.
\<close>

definition strip_symbols :: "string \<Rightarrow> string" where
  "strip_symbols v =
     replace_char (CHR ''%'')
       (replace_char (CHR ''+'')
         (replace_char (CHR '','')
           (replace_char (CHR ''$'') v)))"

definition clean_numeric :: "string \<Rightarrow> pyfloat" where
  "clean_numeric v =
     (if v = [] \<or> lower v \<in> set [''n/a'', ''new''] then Finite 0
      else (case py_float (strip_symbols v) of
              Some x \<Rightarrow> x
            | None \<Rightarrow> Finite 0))"

text \<open>
  \<^verbatim>\<open>_apply_filters\<close>. With the fields typed as \<^verbatim>\<open>ScraperConfig\<close> declares
  them no statement of the \<^verbatim>\<open>try\<close> block raises, so the handler that logs a
  warning and returns \<^verbatim>\<open>False\<close> has no branch here.
\<close>

definition apply_filters :: "config \<Rightarrow> insider_data \<Rightarrow> bool" where
  "apply_filters cfg d =
     (if transaction_types cfg \<noteq> [] \<and> trade_type d \<notin> set (transaction_types cfg) then False
      else if ticker d \<in> set (exclude_companies cfg) then False
      else if include_companies cfg \<noteq> [] \<and> ticker d \<notin> set (include_companies cfg) then False
      else if flt (clean_numeric (value' d)) (min_transaction_value cfg) then False
      else if flt (fabs (clean_numeric (qty d))) (Finite (of_int (min_shares_traded cfg)))
        then False
      else True)"

subsection \<open>Exceptions, the log and the effects of a call\<close>

text \<open>
  Every \<^verbatim>\<open>raise\<close> is a value: a call returns \<open>Inl e\<close> when the exception
  \<open>e\<close> escapes it. The log entries are the messages of \<^verbatim>\<open>self.logger\<close> (and
  the warning that the \<^verbatim>\<open>retry\<close> package writes before it sleeps), with the
  values they are formatted from. A call returns the list of its effects in the order
  they happen: requests sent, sleeps, cache files written, log entries.
\<close>

datatype exn =
    RequestException
  | AttributeError
  | JSONDecodeError
  | FileNotFoundError
  | TypeError
  | ValueError
  | OverflowError

datatype log_entry =
    Info_starting
  | Warning_retrying exn int
  | Warning_no_table int int
  | Error_failed_to_fetch int int exn
  | Error_in_future exn
  | Info_completed nat

datatype event =
    Http_get int int
  | Sleep int
  | Cache_write int int "string list list"
  | Log log_entry

subsection \<open>The page, the cache files and the environment of a unit\<close>

text \<open>
  What \<^verbatim>\<open>BeautifulSoup\<close> finds in a response: no
  \<^verbatim>\<open>table.tinytable\<close>; a table in which \<^verbatim>\<open>find('tbody')\<close> is
  \<^verbatim>\<open>None\<close>; or the rows of the table body, each the texts of its
  \<^verbatim>\<open>td\<close> cells.
\<close>

datatype page = No_table | Table_without_body | Table "string list list"

text \<open>
  A Python set of tuples is a list without repetition here; \<open>set_add\<close> is
  \<^verbatim>\<open>set.add\<close> and \<open>remdups\<close> is \<^verbatim>\<open>set(...)\<close> of a sequence. The order
  in which a Python set is iterated is unspecified, and no theorem below depends on the
  order of these lists.

  A cache file has a modification time and a body. The body is given by what
  \<^verbatim>\<open>set(tuple(x) for x in json.load(f))\<close> does on it: it raises, or the file
  holds an array of arrays of strings. There is one path for each year and month
  (\<^verbatim>\<open>data_{year}_{month}.json\<close> in the cache directory). Opening a file and
  writing it are taken to succeed: the cache directory is made when the scraper is
  constructed, and a disk that fails is outside this model.
\<close>

type_synonym record_tuple = "string list"

definition set_add :: "'a \<Rightarrow> 'a list \<Rightarrow> 'a list" where
  "set_add x s = (if x \<in> set s then s else s @ [x])"

record cache_file =
  mtime :: rat
  content :: "exn + record_tuple list"

type_synonym files = "int \<times> int \<Rightarrow> cache_file option"

definition get_cache_path :: "int \<Rightarrow> int \<Rightarrow> int \<times> int" where
  "get_cache_path year month = (year, month)"

text \<open>
  What a unit's run meets outside the program: the clock when the cache is checked, what
  the \<open>n\<close>-th call of \<^verbatim>\<open>requests.get\<close> on the unit's URL does (it raises or
  answers with a page), and the modification time a file written by the unit gets.
\<close>

record env =
  now :: rat
  responses :: "nat \<Rightarrow> exn + page"
  write_time :: rat

subsection \<open>The fetch client\<close>

text \<open>
  The loop of the \<^verbatim>\<open>retry\<close> package (\<^verbatim>\<open>retry.api.__retry_internal\<close>, with
  no jitter and no maximal delay):
  \<^verbatim>\<open>
  _tries, _delay = tries, delay
  while _tries:
      try:
          return f()
      except exceptions as e:
          _tries -= 1
          if not _tries:
              raise
          logger.warning('%s, retrying in %s seconds...', e, _delay)
          time.sleep(_delay)
          _delay *= backoff
  \<close>
  The function \<open>f\<close> gives the result and the effects of its \<open>n\<close>-th call. A loop
  that ends without a call returns \<^verbatim>\<open>None\<close>.
\<close>

fun retry_internal ::
  "(nat \<Rightarrow> (exn + 'a) \<times> event list) \<Rightarrow> nat \<Rightarrow> int \<Rightarrow> int \<Rightarrow> nat
     \<Rightarrow> (exn + 'a option) \<times> event list" where
  "retry_internal f 0 delay backoff n = (Inr None, [])"
| "retry_internal f (Suc tries) delay backoff n =
     (case f n of
        (Inr r, es) \<Rightarrow> (Inr (Some r), es)
      | (Inl e, es) \<Rightarrow>
          if tries = 0 then (Inl e, es)
          else (case retry_internal f tries (delay * backoff) backoff (Suc n) of
                  (r, es') \<Rightarrow> (r, es @ [Log (Warning_retrying e delay), Sleep delay] @ es')))"

text \<open>
  \<^verbatim>\<open>_fetch_data\<close>, decorated with \<^verbatim>\<open>@retry(tries=3, delay=2, backoff=2)\<close>.
\<close>

definition fetch_data :: "config \<Rightarrow> env \<Rightarrow> int \<Rightarrow> int \<Rightarrow> (exn + page option) \<times> event list" where
  "fetch_data cfg ev year month =
     retry_internal (\<lambda>n. (responses ev n, [Http_get year month])) 3 2 2 0"

subsection \<open>The cache store\<close>

text \<open>
  \<^verbatim>\<open>_is_cache_valid\<close>: the age is the float difference of the two timestamps,
  compared with the int \<^verbatim>\<open>cache_max_age * 3600\<close>.
\<close>

definition cache_age :: "rat \<Rightarrow> cache_file \<Rightarrow> pyfloat" where
  "cache_age t f = b64_round (t - mtime f)"

definition is_cache_valid :: "config \<Rightarrow> rat \<Rightarrow> files \<Rightarrow> int \<times> int \<Rightarrow> bool" where
  "is_cache_valid cfg t fs cache_path =
     (case fs cache_path of
        None \<Rightarrow> False
      | Some f \<Rightarrow> flt (cache_age t f) (Finite (of_int (cache_max_age cfg * 3600))))"

subsection \<open>The work unit processor\<close>

definition column_keys :: "string list" where
  "column_keys =
     [''x'', ''filing_date'', ''trade_date'', ''ticker'', ''company_name'',
      ''owner_name'', ''title'', ''trade_type'', ''price'', ''qty'',
      ''owned'', ''change_pct'', ''value'', ''1d'', ''1w'', ''1m'', ''6m'']"

text \<open>
  The dictionary \<^verbatim>\<open>parsed\<close> of a row of seventeen cells, read at a key (every
  key that is read is a column key, so the lookup finds it).
\<close>

definition parsed :: "string list \<Rightarrow> string \<Rightarrow> string" where
  "parsed cols key =
     (case map_of (zip column_keys (map strip cols)) key of
        Some v \<Rightarrow> v
      | None \<Rightarrow> [])"

definition insider_of :: "string list \<Rightarrow> insider_data" where
  "insider_of cols =
     \<lparr> filing_date = parsed cols ''filing_date'',
       trade_date = parsed cols ''trade_date'',
       ticker = parsed cols ''ticker'',
       company_name = parsed cols ''company_name'',
       owner_name = parsed cols ''owner_name'',
       title = parsed cols ''title'',
       trade_type = parsed cols ''trade_type'',
       price = parsed cols ''price'',
       qty = parsed cols ''qty'',
       owned = parsed cols ''owned'',
       change_pct = parsed cols ''change_pct'',
       value' = parsed cols ''value'' \<rparr>"

text \<open>\<^verbatim>\<open>tuple(insider_data.values())\<close>: the values in the order of insertion.\<close>

definition tuple_of :: "insider_data \<Rightarrow> record_tuple" where
  "tuple_of d =
     [filing_date d, trade_date d, ticker d, company_name d, owner_name d, title d,
      trade_type d, price d, qty d, owned d, change_pct d, value' d]"

text \<open>The loop over the rows, with the set \<^verbatim>\<open>data\<close> as accumulator.\<close>

fun scan_rows :: "config \<Rightarrow> string list list \<Rightarrow> record_tuple list \<Rightarrow> record_tuple list" where
  "scan_rows cfg [] data = data"
| "scan_rows cfg (cols # rows) data =
     (if length cols \<noteq> length column_keys then scan_rows cfg rows data
      else if apply_filters cfg (insider_of cols)
        then scan_rows cfg rows (set_add (tuple_of (insider_of cols)) data)
      else scan_rows cfg rows data)"

text \<open>
  The dates of the URL: \<^verbatim>\<open>datetime(year, month, 1)\<close> raises
  \<^verbatim>\<open>ValueError\<close> outside the years 1 to 9999 and the months 1 to 12, and adding
  32 days to 1 December 9999 raises \<^verbatim>\<open>OverflowError\<close>. Both stand before the
  \<^verbatim>\<open>try\<close> block. The URL itself is determined by the year and the month.
\<close>

definition month_window :: "int \<Rightarrow> int \<Rightarrow> exn + int \<times> int" where
  "month_window year month =
     (if year < 1 \<or> 9999 < year \<or> month < 1 \<or> 12 < month then Inl ValueError
      else if year = 9999 \<and> month = 12 then Inl OverflowError
      else Inr (year, month))"

text \<open>
  The body of the \<^verbatim>\<open>try\<close> block of \<^verbatim>\<open>_get_data_for_month\<close>: the value it
  returns or the exception it raises, the files and the effects.
\<close>

definition try_block ::
  "config \<Rightarrow> env \<Rightarrow> int \<Rightarrow> int \<Rightarrow> files
     \<Rightarrow> (exn + record_tuple list) \<times> files \<times> event list" where
  "try_block cfg ev year month fs =
     (case fetch_data cfg ev year month of
        (Inl e, es) \<Rightarrow> (Inl e, fs, es)
      | (Inr None, es) \<Rightarrow> (Inl AttributeError, fs, es)
      | (Inr (Some No_table), es) \<Rightarrow> (Inr [], fs, es @ [Log (Warning_no_table year month)])
      | (Inr (Some Table_without_body), es) \<Rightarrow> (Inl AttributeError, fs, es)
      | (Inr (Some (Table rows)), es) \<Rightarrow>
          (let data = scan_rows cfg rows []
           in if cache_enabled cfg
              then (Inr data,
                    fs(get_cache_path year month \<mapsto>
                         \<lparr> mtime = write_time ev, content = Inr data \<rparr>),
                    es @ [Cache_write year month data])
              else (Inr data, fs, es)))"

text \<open>\<^verbatim>\<open>_get_data_for_month\<close>.\<close>

definition get_data_for_month ::
  "config \<Rightarrow> env \<Rightarrow> int \<Rightarrow> int \<Rightarrow> files
     \<Rightarrow> (exn + record_tuple list) \<times> files \<times> event list" where
  "get_data_for_month cfg ev year month fs =
     (if cache_enabled cfg \<and> is_cache_valid cfg (now ev) fs (get_cache_path year month) then
        (case fs (get_cache_path year month) of
           None \<Rightarrow> (Inl FileNotFoundError, fs, [])
         | Some f \<Rightarrow>
             (case content f of
                Inl e \<Rightarrow> (Inl e, fs, [])
              | Inr rows \<Rightarrow> (Inr (remdups rows), fs, [])))
      else
        (case month_window year month of
           Inl e \<Rightarrow> (Inl e, fs, [])
         | Inr url \<Rightarrow>
             (case try_block cfg ev year month fs of
                (Inl e, fs', es) \<Rightarrow>
                  (Inr [], fs', es @ [Log (Error_failed_to_fetch year month e)])
              | (Inr data, fs', es) \<Rightarrow> (Inr data, fs', es))))"

subsection \<open>The orchestrator\<close>

text \<open>
  The units that \<^verbatim>\<open>scrape\<close> submits, in the order of submission
  (\<^verbatim>\<open>range(a, b)\<close> is \<open>[a..b - 1]\<close>).
\<close>

definition work_units :: "config \<Rightarrow> int \<Rightarrow> int \<Rightarrow> (int \<times> int) list" where
  "work_units cfg current_year current_month =
     concat
       (map (\<lambda>year.
               map (\<lambda>month. (year, month))
                 [(if year = start_year cfg then start_month cfg else 1)
                  .. (if year = current_year then current_month + 1 else 13) - 1])
          [start_year cfg .. current_year + 1 - 1])"

text \<open>
  The submitted calls. Each unit has an environment of its own and its own cache path;
  the calls are run here one after the other in the order of submission, the worker pool
  runs them in any interleaving.
\<close>

fun run_units ::
  "config \<Rightarrow> (int \<times> int \<Rightarrow> env) \<Rightarrow> (int \<times> int) list \<Rightarrow> files
     \<Rightarrow> (exn + record_tuple list) list \<times> files \<times> event list" where
  "run_units cfg envs [] fs = ([], fs, [])"
| "run_units cfg envs (u # us) fs =
     (case get_data_for_month cfg (envs u) (fst u) (snd u) fs of
        (r, fs1, es1) \<Rightarrow>
          (case run_units cfg envs us fs1 of
             (rs, fs2, es2) \<Rightarrow> (r # rs, fs2, es1 @ es2)))"

text \<open>
  The loop over the futures: \<^verbatim>\<open>all_data.extend(future.result())\<close>, or an error
  in the log when the result is an exception.
\<close>

fun aggregate :: "(exn + record_tuple list) list \<Rightarrow> record_tuple list \<times> event list" where
  "aggregate [] = ([], [])"
| "aggregate (Inr data # rs) =
     (case aggregate rs of (all_data, es) \<Rightarrow> (data @ all_data, es))"
| "aggregate (Inl e # rs) =
     (case aggregate rs of (all_data, es) \<Rightarrow> (all_data, Log (Error_in_future e) # es))"

text \<open>
  \<^verbatim>\<open>scrape\<close>, up to the call of \<^verbatim>\<open>_save_data\<close>: the list
  \<^verbatim>\<open>all_data\<close> handed to it, the files and the effects.
\<close>

definition scrape ::
  "config \<Rightarrow> (int \<times> int \<Rightarrow> env) \<Rightarrow> int \<Rightarrow> int \<Rightarrow> files
     \<Rightarrow> record_tuple list \<times> files \<times> event list" where
  "scrape cfg envs current_year current_month fs =
     (case run_units cfg envs (work_units cfg current_year current_month) fs of
        (rs, fs', es) \<Rightarrow>
          (case aggregate rs of
             (all_data, es') \<Rightarrow>
               (all_data, fs',
                [Log Info_starting] @ es @ es' @ [Log (Info_completed (length all_data))])))"

subsection \<open>Example inputs\<close>

text \<open>
  A configuration with caching enabled and the thresholds 25000 and 100, rows of
  seventeen cells, and environments in which the source answers with a page or fails.
\<close>

definition cfg0 :: config where
  "cfg0 =
     \<lparr> start_year = 2024, start_month = 1, max_workers = 4, retry_attempts = 10, timeout = 30,
       min_transaction_value = Finite 25000, transaction_types = [''P - Purchase''],
       exclude_companies = [''XYZ''], include_companies = [], min_shares_traded = 100,
       cache_enabled = True, cache_max_age = 24 \<rparr>"

definition row0 :: "string \<Rightarrow> string \<Rightarrow> string \<Rightarrow> string list" where
  "row0 x tk v =
     [x, ''2024-01-15'', ''2024-01-12'', tk, ''Acme Corp'', ''Doe John'', ''CEO'',
      ''P - Purchase'', ''$10.00'', '' +2,500 '', ''5,000'', ''+100%'', v,
      '''', '''', '''', '''']"

text \<open>The row of ticker ACME with the quantity cell and the value cell left open.\<close>

definition row1 :: "string \<Rightarrow> string \<Rightarrow> string list" where
  "row1 q v =
     [''D'', ''2024-01-15'', ''2024-01-12'', ''ACME'', ''Acme Corp'', ''Doe John'', ''CEO'',
      ''P - Purchase'', ''$10.00'', q, ''5,000'', ''+100%'', v,
      '''', '''', '''', '''']"

definition tuple0 :: "string \<Rightarrow> string \<Rightarrow> record_tuple" where
  "tuple0 tk v =
     [''2024-01-15'', ''2024-01-12'', tk, ''Acme Corp'', ''Doe John'', ''CEO'',
      ''P - Purchase'', ''$10.00'', ''+2,500'', ''5,000'', ''+100%'', v]"

definition env_page :: "page \<Rightarrow> env" where
  "env_page pg = \<lparr> now = 1700000000, responses = (\<lambda>n. Inr pg), write_time = 1700000007 \<rparr>"

definition env_down :: env where
  "env_down =
     \<lparr> now = 1700000000, responses = (\<lambda>n. Inl RequestException), write_time = 1700000007 \<rparr>"

definition env_flaky :: "page \<Rightarrow> env" where
  "env_flaky pg =
     \<lparr> now = 1700000000,
       responses = (\<lambda>n. if n < 3 then Inl RequestException else Inr pg),
       write_time = 1700000007 \<rparr>"

definition no_files :: files where
  "no_files = (\<lambda>p. None)"

definition one_file :: "int \<Rightarrow> int \<Rightarrow> rat \<Rightarrow> exn + record_tuple list \<Rightarrow> files" where
  "one_file year month t c = no_files(get_cache_path year month \<mapsto> \<lparr> mtime = t, content = c \<rparr>)"

definition envs0 :: "int \<times> int \<Rightarrow> env" where
  "envs0 u =
     (if u = (2024, 2) then env_down
      else env_page (Table [row0 ''D'' ''ACME'' ''$25,000'']))"

section \<open>Properties\<close>

subsection \<open>Rounding to binary64\<close>

text \<open>
  \<open>ilog2\<close> is the binary exponent of a positive rational, and every binary64 number
  (a significand below \<open>2\<^sup>5\<^sup>3\<close> with an exponent in the range of the format) is left
  unchanged by the rounding.
\<close>

lemma two_powi_less_imp: "(2::rat) powi x < 2 powi y \<Longrightarrow> x < y"
proof (rule ccontr)
  assume a: "(2::rat) powi x < 2 powi y" and "\<not> x < y"
  then have "y \<le> x" by simp
  then have "(2::rat) powi y \<le> 2 powi x" by (intro power_int_increasing) auto
  with a show False by simp
qed

lemma bitlen_rat_bounds:
  assumes "0 < a"
  shows "(2::rat) powi (bitlen a - 1) \<le> of_int a" and "of_int a < (2::rat) powi (bitlen a)"
proof -
  have l: "1 \<le> bitlen a" using assms by (auto simp: bitlen_alt_def)
  from bitlen_bounds[OF assms]
  have 1: "2 ^ nat (bitlen a - 1) \<le> a" and 2: "a < 2 ^ nat (bitlen a)"
    by auto
  have "(of_int (2 ^ nat (bitlen a - 1)) :: rat) \<le> of_int a"
    using 1 by (simp only: of_int_le_iff)
  then show "(2::rat) powi (bitlen a - 1) \<le> of_int a"
    using l by (simp add: power_int_nonneg_exp)
  have "(of_int a :: rat) < of_int (2 ^ nat (bitlen a))"
    using 2 by (simp only: of_int_less_iff)
  then show "of_int a < (2::rat) powi (bitlen a)"
    using l by (simp add: power_int_nonneg_exp)
qed

lemma ilog2_bounds:
  assumes "0 < q"
  shows "2 powi (ilog2 q) \<le> q \<and> q < 2 powi (ilog2 q + 1)"
proof -
  obtain a b where ab: "quotient_of q = (a, b)" by force
  have b: "0 < b" using quotient_of_denom_pos[OF ab] .
  have q: "q = of_int a / of_int b" using quotient_of_div[OF ab] .
  have a: "0 < a" using assms b q by (simp add: zero_less_divide_iff)
  define k where "k = bitlen a - bitlen b"
  have rb: "(0::rat) < of_int b" using b by simp
  have up: "q < 2 powi (k + 1)"
  proof -
    have "of_int a < (2::rat) powi (bitlen a)" using bitlen_rat_bounds(2)[OF a] .
    also have "\<dots> = 2 powi (k + 1) * 2 powi (bitlen b - 1)"
      by (simp add: k_def flip: power_int_add)
    also have "\<dots> \<le> 2 powi (k + 1) * of_int b"
      using bitlen_rat_bounds(1)[OF b] by (intro mult_left_mono) auto
    finally show ?thesis using rb by (simp add: q pos_divide_less_eq)
  qed
  have lo: "2 powi (k - 1) \<le> q"
  proof -
    have "(2::rat) powi (k - 1) * of_int b \<le> 2 powi (k - 1) * 2 powi (bitlen b)"
      using bitlen_rat_bounds(2)[OF b] by (intro mult_left_mono) auto
    also have "\<dots> = 2 powi (bitlen a - 1)"
      by (simp add: k_def flip: power_int_add)
    also have "\<dots> \<le> of_int a" using bitlen_rat_bounds(1)[OF a] .
    finally show ?thesis using rb by (simp add: q pos_le_divide_eq)
  qed
  have il: "ilog2 q = (if 2 powi k \<le> q then k else k - 1)"
    by (simp add: ilog2_def ab k_def Let_def)
  show ?thesis
  proof (cases "2 powi k \<le> q")
    case True
    then show ?thesis using up il by simp
  next
    case False
    then show ?thesis using lo il by simp
  qed
qed

lemma round_half_even_of_int: "round_half_even (of_int m) = m"
  by (simp add: round_half_even_def)

lemma b64_pos_fixed:
  assumes n: "0 < n" "n < 2 ^ 53" and j: "- 1074 \<le> j" "j \<le> 971"
  shows "b64_pos (of_int n * 2 powi j) = Finite (of_int n * 2 powi j)"
proof -
  define q :: rat where "q = of_int n * 2 powi j"
  have q0: "0 < q" using n by (simp add: q_def)
  have "of_int n < (of_int (2 ^ 53) :: rat)" using n(2) by (simp only: of_int_less_iff)
  then have "of_int n < (2::rat) powi 53" by simp
  then have "q < 2 powi 53 * 2 powi j" unfolding q_def by (intro mult_strict_right_mono) auto
  then have qu: "q < 2 powi (53 + j)" by (simp add: power_int_add)
  have "2 powi (ilog2 q) \<le> q" using ilog2_bounds[OF q0] by simp
  with qu have "(2::rat) powi (ilog2 q) < 2 powi (53 + j)" by simp
  then have il: "ilog2 q < 53 + j" by (rule two_powi_less_imp)
  define e where "e = max (ilog2 q) (- 1022)"
  have e: "e \<le> 52 + j" using il j by (simp add: e_def)
  define d where "d = nat (52 + j - e)"
  have dd: "int d = 52 + j - e" using e by (simp add: d_def)
  have "q / 2 powi (e - 52) = of_int n * 2 powi (j - (e - 52))"
    by (simp add: q_def power_int_diff)
  also have "j - (e - 52) = int d" using dd by simp
  finally have qd: "q / 2 powi (e - 52) = of_int (n * 2 ^ d)" by simp
  have vq: "of_int (n * 2 ^ d) * 2 powi (e - 52) = q"
    using qd by (metis nonzero_divide_eq_eq power_int_eq_0_iff zero_neq_numeral)
  have "(2::rat) powi (53 + j) \<le> 2 powi 1024" using j by (intro power_int_increasing) auto
  with qu have nov: "\<not> 2 powi 1024 \<le> q" by simp
  show ?thesis
    unfolding q_def[symmetric]
    by (simp add: b64_pos_def Let_def e_def[symmetric] qd round_half_even_of_int vq nov
             del: of_int_mult of_int_power power_int_numeral)
qed

lemma b64_round_fixed:
  assumes n: "\<bar>n\<bar> < 2 ^ 53" and j: "- 1074 \<le> j" "j \<le> 971"
  shows "b64_round (of_int n * 2 powi j) = Finite (of_int n * 2 powi j)"
proof -
  consider "n = 0" | "0 < n" | "n < 0" by linarith
  then show ?thesis
  proof cases
    case 1
    then show ?thesis by (simp add: b64_round_def)
  next
    case 2
    then have "0 < (of_int n * 2 powi j :: rat)" by simp
    then show ?thesis using b64_pos_fixed[OF 2 _ j] n 2 by (simp add: b64_round_def)
  next
    case 3
    then have m: "0 < - n" "- n < 2 ^ 53" using n by auto
    have neg: "(of_int n * 2 powi j :: rat) < 0" using 3 by (simp add: mult_neg_pos)
    have "b64_pos (- (of_int n * 2 powi j)) = Finite (- (of_int n * 2 powi j))"
      using b64_pos_fixed[OF m j] by simp
    then show ?thesis using neg by (simp add: b64_round_def)
  qed
qed

lemma b64_round_int: "\<bar>n\<bar> < 2 ^ 53 \<Longrightarrow> b64_round (of_int n) = Finite (of_int n)"
  using b64_round_fixed[of n 0] by simp

subsection \<open>Evaluating the coercion\<close>

lemmas float_parse_defs =
  py_float_def strip_by_def is_c_space_def is_digit_def replace_char_def parse_inf_nan_def
  lower_def lower_char_def parse_decimal_def int_of_digits_def digit_val_def

lemma flt_irrefl: "\<not> flt x x"
  by (cases x) simp_all

lemma py_float_1234_50: "py_float ''1234.50'' = Some (Finite (2469 / 2))"
  using b64_round_fixed[of 2469 "- 1"] by (simp add: float_parse_defs)

lemma py_float_25000: "py_float ''25000'' = Some (Finite 25000)"
  using b64_round_int[of 25000] by (simp add: float_parse_defs)

lemma py_float_24999: "py_float ''24999'' = Some (Finite 24999)"
  using b64_round_int[of 24999] by (simp add: float_parse_defs)

lemma py_float_2500: "py_float ''2500'' = Some (Finite 2500)"
  using b64_round_int[of 2500] by (simp add: float_parse_defs)

lemma clean_numeric_25000: "clean_numeric ''$25,000'' = Finite 25000"
  by (simp add: clean_numeric_def strip_symbols_def replace_char_def lower_def lower_char_def
      py_float_25000)

lemma clean_numeric_24999: "clean_numeric ''$24,999'' = Finite 24999"
  by (simp add: clean_numeric_def strip_symbols_def replace_char_def lower_def lower_char_def
      py_float_24999)

lemma clean_numeric_2500: "clean_numeric ''+2,500'' = Finite 2500"
  by (simp add: clean_numeric_def strip_symbols_def replace_char_def lower_def lower_char_def
      py_float_2500)

lemma insider_of_row0:
  "insider_of (row0 x tk v) =
     \<lparr> filing_date = ''2024-01-15'', trade_date = ''2024-01-12'', ticker = strip tk,
       company_name = ''Acme Corp'', owner_name = ''Doe John'', title = ''CEO'',
       trade_type = ''P - Purchase'', price = ''$10.00'', qty = ''+2,500'', owned = ''5,000'',
       change_pct = ''+100%'', value' = strip v \<rparr>"
  by (simp add: insider_of_def row0_def parsed_def column_keys_def strip_def strip_by_def
      is_space_def)

lemma strip_examples:
  "strip ''ACME'' = ''ACME''" "strip ''XYZ'' = ''XYZ''" "strip ''INIT'' = ''INIT''"
  "strip ''$25,000'' = ''$25,000''" "strip ''$24,999'' = ''$24,999''"
  by (simp_all add: strip_def strip_by_def is_space_def)

subsection \<open>The filter engine\<close>

text \<open>
  C6. \<^verbatim>\<open>_clean_numeric\<close> gives \<open>0.0\<close> on \<^verbatim>\<open>"N/A"\<close>, on the empty string and
  on \<^verbatim>\<open>"new"\<close>, and on every string that \<^verbatim>\<open>lower()\<close> turns into
  \<^verbatim>\<open>n/a\<close> or \<^verbatim>\<open>new\<close>; \<^verbatim>\<open>"$1,234.50"\<close> becomes \<^verbatim>\<open>"1234.50"\<close> when
  the symbols are removed and is read as 1234.5; and every string that \<^verbatim>\<open>float\<close>
  rejects after the symbols are removed gives \<open>0.0\<close>. The function returns a float on
  every string: no exception leaves it.
\<close>

theorem clean_numeric_lenient:
  "clean_numeric ''N/A'' = Finite 0
   \<and> clean_numeric '''' = Finite 0
   \<and> clean_numeric ''new'' = Finite 0
   \<and> (\<forall>s. lower s = ''n/a'' \<or> lower s = ''new'' \<longrightarrow> clean_numeric s = Finite 0)
   \<and> strip_symbols ''$1,234.50'' = ''1234.50''
   \<and> clean_numeric ''$1,234.50'' = Finite (2469 / 2)
   \<and> (\<forall>s. py_float (strip_symbols s) = None \<longrightarrow> clean_numeric s = Finite 0)"
proof -
  have a: "clean_numeric s = Finite 0" if "lower s = ''n/a'' \<or> lower s = ''new''" for s
    using that by (auto simp add: clean_numeric_def)
  have b: "clean_numeric s = Finite 0" if "py_float (strip_symbols s) = None" for s
    using that by (simp add: clean_numeric_def)
  have d: "strip_symbols ''$1,234.50'' = ''1234.50''"
    by (simp add: strip_symbols_def replace_char_def)
  have c: "clean_numeric ''$1,234.50'' = Finite (2469 / 2)"
    by (simp add: clean_numeric_def d py_float_1234_50 lower_def lower_char_def)
  have e: "lower ''N/A'' = ''n/a''" "lower ''new'' = ''new''"
    by (simp_all add: lower_def lower_char_def)
  have f: "clean_numeric '''' = Finite 0" by (simp add: clean_numeric_def)
  show ?thesis using a b c d e f by blast
qed

theorem clean_numeric_lenient_witness:
  "clean_numeric ''NEW'' = Finite 0 \<and> clean_numeric ''n/A'' = Finite 0
   \<and> clean_numeric ''12abc'' = Finite 0 \<and> clean_numeric ''$1.2.3'' = Finite 0"
proof -
  have 1: "lower ''NEW'' = ''new''" "lower ''n/A'' = ''n/a''"
    by (simp_all add: lower_def lower_char_def)
  have 2: "py_float (strip_symbols ''12abc'') = None"
    "py_float (strip_symbols ''$1.2.3'') = None"
    by (simp_all add: strip_symbols_def float_parse_defs)
  show ?thesis using clean_numeric_lenient 1 2 by blast
qed

text \<open>
  Quantities with a sign: the comma is removed, the minus sign stays and is read by
  \<^verbatim>\<open>float\<close>.
\<close>

lemma py_float_signed:
  "py_float ''-5000'' = Some (Finite (- 5000))"
  "py_float ''-100'' = Some (Finite (- 100))"
  "py_float ''-99'' = Some (Finite (- 99))"
  "py_float ''99'' = Some (Finite 99)"
  using b64_round_int[of "- 5000"] b64_round_int[of "- 100"] b64_round_int[of "- 99"]
    b64_round_int[of 99]
  by (simp_all add: float_parse_defs)

lemma clean_numeric_signed:
  "clean_numeric ''-5,000'' = Finite (- 5000)"
  "clean_numeric ''-100'' = Finite (- 100)"
  "clean_numeric ''-99'' = Finite (- 99)"
  "clean_numeric ''99'' = Finite 99"
  by (simp_all add: clean_numeric_def strip_symbols_def replace_char_def lower_def lower_char_def
      py_float_signed)

lemma clean_numeric_inf_nan:
  "clean_numeric ''nan'' = NaN"
  "clean_numeric ''-inf'' = NegInf"
  by (simp_all add: clean_numeric_def strip_symbols_def float_parse_defs)

lemma insider_of_row1:
  "insider_of (row1 q v) =
     \<lparr> filing_date = ''2024-01-15'', trade_date = ''2024-01-12'', ticker = ''ACME'',
       company_name = ''Acme Corp'', owner_name = ''Doe John'', title = ''CEO'',
       trade_type = ''P - Purchase'', price = ''$10.00'', qty = strip q, owned = ''5,000'',
       change_pct = ''+100%'', value' = strip v \<rparr>"
  by (simp add: insider_of_def row1_def parsed_def column_keys_def strip_def strip_by_def
      is_space_def)

lemma strip_quantities:
  "strip ''-5,000'' = ''-5,000''" "strip ''-100'' = ''-100''" "strip ''-99'' = ''-99''"
  "strip ''99'' = ''99''" "strip ''nan'' = ''nan''" "strip ''-inf'' = ''-inf''"
  by (simp_all add: strip_def strip_by_def is_space_def)

lemma flt_cases:
  "flt x y =
     (case x of
        Finite a \<Rightarrow>
          (case y of Finite b \<Rightarrow> a < b | PosInf \<Rightarrow> True | NegInf \<Rightarrow> False | NaN \<Rightarrow> False)
      | PosInf \<Rightarrow> False
      | NegInf \<Rightarrow>
          (case y of Finite b \<Rightarrow> True | PosInf \<Rightarrow> True | NegInf \<Rightarrow> False | NaN \<Rightarrow> False)
      | NaN \<Rightarrow> False)"
  by (cases x; cases y) simp_all

lemma flt_fabs_cases:
  "flt (fabs x) (Finite n) =
     (case x of Finite q \<Rightarrow> \<bar>q\<bar> < n | PosInf \<Rightarrow> False | NegInf \<Rightarrow> False | NaN \<Rightarrow> False)"
  by (cases x) simp_all

text \<open>
  C5. \<^verbatim>\<open>_apply_filters\<close> returns \<^verbatim>\<open>False\<close> exactly when one of the five
  conditions holds: the allowed trade types are configured and do not contain the trade
  type; the ticker is excluded; the included tickers are configured and do not contain the
  ticker; the coerced value is strictly below \<^verbatim>\<open>min_transaction_value\<close>; the absolute
  value of the coerced quantity is strictly below \<^verbatim>\<open>min_shares_traded\<close>. The two
  numeric tests are stated on the numbers themselves: for finite floats \<open>v\<close>, \<open>m\<close> and
  \<open>q\<close> they are \<open>v < m\<close> and \<open>\<bar>q\<bar> < min_shares_traded\<close>; a NaN is below nothing and
  nothing is below it, and an infinite quantity is never below the minimum. A value equal
  to the minimum is not below it: against 25000 the value \<^verbatim>\<open>"$25,000"\<close> passes the
  value test (the record is accepted when the other four conditions fail too), and
  \<^verbatim>\<open>"$24,999"\<close> is rejected. The sign of the quantity does not count: the quantity
  \<^verbatim>\<open>"-5,000"\<close> is read as -5000 and passes the quantity test against every minimum
  up to 5000, and a quantity equal to the minimum in absolute value passes it.
\<close>

theorem apply_filters_rejects_iff:
  "(apply_filters cfg d = False) =
     ((transaction_types cfg \<noteq> [] \<and> trade_type d \<notin> set (transaction_types cfg))
      \<or> ticker d \<in> set (exclude_companies cfg)
      \<or> (include_companies cfg \<noteq> [] \<and> ticker d \<notin> set (include_companies cfg))
      \<or> (case clean_numeric (value' d) of
            Finite v \<Rightarrow>
              (case min_transaction_value cfg of
                 Finite m \<Rightarrow> v < m | PosInf \<Rightarrow> True | NegInf \<Rightarrow> False | NaN \<Rightarrow> False)
          | PosInf \<Rightarrow> False
          | NegInf \<Rightarrow>
              (case min_transaction_value cfg of
                 Finite m \<Rightarrow> True | PosInf \<Rightarrow> True | NegInf \<Rightarrow> False | NaN \<Rightarrow> False)
          | NaN \<Rightarrow> False)
      \<or> (case clean_numeric (qty d) of
            Finite q \<Rightarrow> \<bar>q\<bar> < of_int (min_shares_traded cfg)
          | PosInf \<Rightarrow> False | NegInf \<Rightarrow> False | NaN \<Rightarrow> False))
   \<and> (\<forall>v m q.
         clean_numeric (value' d) = Finite v \<and> min_transaction_value cfg = Finite m
         \<and> clean_numeric (qty d) = Finite q \<longrightarrow>
         (apply_filters cfg d = False) =
           ((transaction_types cfg \<noteq> [] \<and> trade_type d \<notin> set (transaction_types cfg))
            \<or> ticker d \<in> set (exclude_companies cfg)
            \<or> (include_companies cfg \<noteq> [] \<and> ticker d \<notin> set (include_companies cfg))
            \<or> v < m
            \<or> \<bar>q\<bar> < of_int (min_shares_traded cfg)))
   \<and> (\<forall>q. min_transaction_value cfg = clean_numeric (value' d)
          \<and> clean_numeric (qty d) = Finite q \<longrightarrow>
         apply_filters cfg d =
           (\<not> (transaction_types cfg \<noteq> [] \<and> trade_type d \<notin> set (transaction_types cfg))
            \<and> ticker d \<notin> set (exclude_companies cfg)
            \<and> \<not> (include_companies cfg \<noteq> [] \<and> ticker d \<notin> set (include_companies cfg))
            \<and> of_int (min_shares_traded cfg) \<le> \<bar>q\<bar>))
   \<and> clean_numeric ''$25,000'' = Finite 25000
   \<and> clean_numeric ''$24,999'' = Finite 24999
   \<and> (min_transaction_value cfg = Finite 25000 \<and> value' d = ''$24,999'' \<longrightarrow>
        apply_filters cfg d = False)
   \<and> (\<forall>q. min_transaction_value cfg = Finite 25000 \<and> value' d = ''$25,000''
          \<and> clean_numeric (qty d) = Finite q \<longrightarrow>
         apply_filters cfg d =
           (\<not> (transaction_types cfg \<noteq> [] \<and> trade_type d \<notin> set (transaction_types cfg))
            \<and> ticker d \<notin> set (exclude_companies cfg)
            \<and> \<not> (include_companies cfg \<noteq> [] \<and> ticker d \<notin> set (include_companies cfg))
            \<and> of_int (min_shares_traded cfg) \<le> \<bar>q\<bar>))
   \<and> clean_numeric ''-5,000'' = Finite (- 5000)
   \<and> (\<forall>v m. qty d = ''-5,000'' \<and> min_shares_traded cfg \<le> 5000
          \<and> clean_numeric (value' d) = Finite v \<and> min_transaction_value cfg = Finite m \<longrightarrow>
         apply_filters cfg d =
           (\<not> (transaction_types cfg \<noteq> [] \<and> trade_type d \<notin> set (transaction_types cfg))
            \<and> ticker d \<notin> set (exclude_companies cfg)
            \<and> \<not> (include_companies cfg \<noteq> [] \<and> ticker d \<notin> set (include_companies cfg))
            \<and> m \<le> v))
   \<and> (\<forall>q. clean_numeric (qty d) = Finite q \<and> \<bar>q\<bar> < of_int (min_shares_traded cfg) \<longrightarrow>
         apply_filters cfg d = False)"
proof -
  let ?types = "transaction_types cfg \<noteq> [] \<and> trade_type d \<notin> set (transaction_types cfg)"
  let ?excl = "ticker d \<in> set (exclude_companies cfg)"
  let ?incl = "include_companies cfg \<noteq> [] \<and> ticker d \<notin> set (include_companies cfg)"
  have main: "(apply_filters cfg d = False) =
     (?types \<or> ?excl \<or> ?incl
      \<or> flt (clean_numeric (value' d)) (min_transaction_value cfg)
      \<or> flt (fabs (clean_numeric (qty d))) (Finite (of_int (min_shares_traded cfg))))"
    by (simp add: apply_filters_def)
  have c1: "(apply_filters cfg d = False) =
     (?types \<or> ?excl \<or> ?incl
      \<or> (case clean_numeric (value' d) of
            Finite v \<Rightarrow>
              (case min_transaction_value cfg of
                 Finite m \<Rightarrow> v < m | PosInf \<Rightarrow> True | NegInf \<Rightarrow> False | NaN \<Rightarrow> False)
          | PosInf \<Rightarrow> False
          | NegInf \<Rightarrow>
              (case min_transaction_value cfg of
                 Finite m \<Rightarrow> True | PosInf \<Rightarrow> True | NegInf \<Rightarrow> False | NaN \<Rightarrow> False)
          | NaN \<Rightarrow> False)
      \<or> (case clean_numeric (qty d) of
            Finite q \<Rightarrow> \<bar>q\<bar> < of_int (min_shares_traded cfg)
          | PosInf \<Rightarrow> False | NegInf \<Rightarrow> False | NaN \<Rightarrow> False))"
    unfolding main
    by (simp only: flt_cases[of "clean_numeric (value' d)" "min_transaction_value cfg"]
        flt_fabs_cases[of "clean_numeric (qty d)" "of_int (min_shares_traded cfg)"])
  have c2: "(apply_filters cfg d = False) =
      (?types \<or> ?excl \<or> ?incl \<or> v < m \<or> \<bar>q\<bar> < of_int (min_shares_traded cfg))"
    if "clean_numeric (value' d) = Finite v \<and> min_transaction_value cfg = Finite m
        \<and> clean_numeric (qty d) = Finite q" for v m q
    unfolding main using that by simp
  have c3: "apply_filters cfg d =
      (\<not> ?types \<and> \<not> ?excl \<and> \<not> ?incl \<and> of_int (min_shares_traded cfg) \<le> \<bar>q\<bar>)"
    if "min_transaction_value cfg = clean_numeric (value' d) \<and> clean_numeric (qty d) = Finite q"
    for q
    using main that by (auto simp add: flt_irrefl not_less)
  have c6: "apply_filters cfg d = False"
    if "min_transaction_value cfg = Finite 25000 \<and> value' d = ''$24,999''"
    using main that by (simp add: clean_numeric_24999)
  have c7: "apply_filters cfg d =
      (\<not> ?types \<and> \<not> ?excl \<and> \<not> ?incl \<and> of_int (min_shares_traded cfg) \<le> \<bar>q\<bar>)"
    if "min_transaction_value cfg = Finite 25000 \<and> value' d = ''$25,000''
        \<and> clean_numeric (qty d) = Finite q" for q
    using main that by (auto simp add: clean_numeric_25000 not_less)
  have c9: "apply_filters cfg d = (\<not> ?types \<and> \<not> ?excl \<and> \<not> ?incl \<and> m \<le> v)"
    if "qty d = ''-5,000'' \<and> min_shares_traded cfg \<le> 5000
        \<and> clean_numeric (value' d) = Finite v \<and> min_transaction_value cfg = Finite m" for v m
  proof -
    have "(of_int (min_shares_traded cfg) :: rat) \<le> of_int 5000"
      using that by (simp only: of_int_le_iff)
    then have "\<not> flt (fabs (clean_numeric (qty d))) (Finite (of_int (min_shares_traded cfg)))"
      using that by (simp add: clean_numeric_signed)
    then show ?thesis using main that by (auto simp add: not_less)
  qed
  have c10: "apply_filters cfg d = False"
    if "clean_numeric (qty d) = Finite q \<and> \<bar>q\<bar> < of_int (min_shares_traded cfg)" for q
    using main that by simp
  show ?thesis
    using c1 c2 c3 c6 c7 c9 c10 clean_numeric_25000 clean_numeric_24999 clean_numeric_signed(1)
    by blast
qed

theorem apply_filters_rejects_iff_witness:
  "apply_filters cfg0 (insider_of (row0 ''D'' ''ACME'' ''$25,000'')) = True
   \<and> apply_filters cfg0 (insider_of (row0 ''D'' ''ACME'' ''$24,999'')) = False
   \<and> apply_filters cfg0 (insider_of (row0 ''D'' ''XYZ'' ''$25,000'')) = False
   \<and> clean_numeric ''-5,000'' = Finite (- 5000)
   \<and> apply_filters cfg0 (insider_of (row1 ''-5,000'' ''$25,000'')) = True
   \<and> apply_filters cfg0 (insider_of (row1 ''-5,000'' ''$24,999'')) = False
   \<and> apply_filters cfg0 (insider_of (row1 ''-100'' ''$25,000'')) = True
   \<and> apply_filters cfg0 (insider_of (row1 ''-99'' ''$25,000'')) = False
   \<and> apply_filters cfg0 (insider_of (row1 ''99'' ''$25,000'')) = False
   \<and> apply_filters cfg0 (insider_of (row1 ''-inf'' ''$25,000'')) = True
   \<and> apply_filters cfg0 (insider_of (row1 ''-5,000'' ''nan'')) = True"
  using apply_filters_rejects_iff [of cfg0 "insider_of (row0 ''D'' ''ACME'' ''$25,000'')"]
    apply_filters_rejects_iff [of cfg0 "insider_of (row0 ''D'' ''ACME'' ''$24,999'')"]
    apply_filters_rejects_iff [of cfg0 "insider_of (row0 ''D'' ''XYZ'' ''$25,000'')"]
    apply_filters_rejects_iff [of cfg0 "insider_of (row1 ''-5,000'' ''$25,000'')"]
    apply_filters_rejects_iff [of cfg0 "insider_of (row1 ''-5,000'' ''$24,999'')"]
    apply_filters_rejects_iff [of cfg0 "insider_of (row1 ''-100'' ''$25,000'')"]
    apply_filters_rejects_iff [of cfg0 "insider_of (row1 ''-99'' ''$25,000'')"]
    apply_filters_rejects_iff [of cfg0 "insider_of (row1 ''99'' ''$25,000'')"]
    apply_filters_rejects_iff [of cfg0 "insider_of (row1 ''-inf'' ''$25,000'')"]
    apply_filters_rejects_iff [of cfg0 "insider_of (row1 ''-5,000'' ''nan'')"]
  by (simp add: insider_of_row0 insider_of_row1 strip_examples strip_quantities
      clean_numeric_2500 clean_numeric_signed clean_numeric_inf_nan cfg0_def)

subsection \<open>The paths of a work unit\<close>

text \<open>
  What \<^verbatim>\<open>_fetch_data\<close> does when the first request is answered and when three
  requests in a row fail, and what \<^verbatim>\<open>_get_data_for_month\<close> does on each of its
  paths.
\<close>

lemma fetch_data_first_ok:
  "responses ev 0 = Inr pg \<Longrightarrow>
     fetch_data cfg ev year month = (Inr (Some pg), [Http_get year month])"
  by (simp add: fetch_data_def numeral_3_eq_3)

lemma fetch_data_all_fail:
  assumes "responses ev 0 = Inl e0" "responses ev 1 = Inl e1" "responses ev 2 = Inl e2"
  shows "fetch_data cfg ev year month =
           (Inl e2,
            [Http_get year month, Log (Warning_retrying e0 2), Sleep 2,
             Http_get year month, Log (Warning_retrying e1 4), Sleep 4,
             Http_get year month])"
  using assms by (simp add: fetch_data_def numeral_3_eq_3 numeral_2_eq_2)

lemma retry_internal_events:
  assumes "\<And>k. set (snd (f k)) \<subseteq> A"
    and "\<And>e d. Log (Warning_retrying e d) \<in> A" and "\<And>d. Sleep d \<in> A"
  shows "set (snd (retry_internal f tries delay backoff n)) \<subseteq> A"
proof (induction tries arbitrary: delay n)
  case 0
  then show ?case by simp
next
  case (Suc tries)
  obtain r es where fn: "f n = (r, es)" by force
  have es: "set es \<subseteq> A" using assms(1)[of n] fn by simp
  show ?case
  proof (cases r)
    case (Inr a)
    then show ?thesis using fn es by simp
  next
    case (Inl e)
    obtain r' es' where rec: "retry_internal f tries (delay * backoff) backoff (Suc n) = (r', es')"
      by force
    have "set es' \<subseteq> A" using Suc.IH[of "delay * backoff" "Suc n"] rec by simp
    then show ?thesis using fn es Inl rec assms(2,3) by auto
  qed
qed

lemma fetch_data_no_write:
  "Cache_write y m written \<notin> set (snd (fetch_data cfg ev year month))"
proof -
  have "set (snd (fetch_data cfg ev year month)) \<subseteq> {x. \<forall>y m w. x \<noteq> Cache_write y m w}"
    unfolding fetch_data_def by (rule retry_internal_events) auto
  then show ?thesis by auto
qed

text \<open>
  A row of seventeen cells has every key that is read, and the tuple made of it is the
  stripped text of its cells two to thirteen.
\<close>

lemma parsed_found:
  assumes "length cols = length column_keys" "key \<in> set column_keys"
  shows "map_of (zip column_keys (map strip cols)) key \<noteq> None"
  using assms by (simp add: map_of_zip_is_None)

lemma list17:
  assumes "length (cols :: 'a list) = 17"
  obtains c0 c1 c2 c3 c4 c5 c6 c7 c8 c9 c10 c11 c12 c13 c14 c15 c16
  where "cols = [c0, c1, c2, c3, c4, c5, c6, c7, c8, c9, c10, c11, c12, c13, c14, c15, c16]"
proof -
  have "length cols = Suc (Suc (Suc (Suc (Suc (Suc (Suc (Suc (Suc (Suc (Suc (Suc (Suc (Suc (Suc (Suc (Suc 0))))))))))))))))"
    using assms by simp
  then show ?thesis using that by (auto simp add: length_Suc_conv)
qed

lemma tuple_of_insider_of:
  assumes "length cols = length column_keys"
  shows "tuple_of (insider_of cols) = map strip (take 12 (tl cols))"
proof -
  have "length cols = 17" using assms by (simp add: column_keys_def)
  then obtain c0 c1 c2 c3 c4 c5 c6 c7 c8 c9 c10 c11 c12 c13 c14 c15 c16
    where "cols = [c0, c1, c2, c3, c4, c5, c6, c7, c8, c9, c10, c11, c12, c13, c14, c15, c16]"
    by (rule list17)
  then show ?thesis
    by (simp add: tuple_of_def insider_of_def parsed_def column_keys_def)
qed

lemma tuple_of_inject: "(tuple_of d = tuple_of d') = (d = (d' :: insider_data))"
  by (cases d, cases d') (auto simp add: tuple_of_def)

lemma set_scan_rows:
  "set (scan_rows cfg rows data) =
     set data \<union>
     {tuple_of (insider_of c) |c.
        c \<in> set rows \<and> length c = length column_keys \<and> apply_filters cfg (insider_of c)}"
  by (induction rows arbitrary: data) (auto simp add: set_add_def)

lemma distinct_scan_rows: "distinct data \<Longrightarrow> distinct (scan_rows cfg rows data)"
  by (induction rows arbitrary: data) (auto simp add: set_add_def)

lemma scan_rows_accepted:
  "t \<in> set (scan_rows cfg rows []) \<Longrightarrow> \<exists>d. t = tuple_of d \<and> apply_filters cfg d"
  by (auto simp add: set_scan_rows)

lemma get_data_hit:
  assumes "cache_enabled cfg" "fs (get_cache_path year month) = Some f"
    and "flt (cache_age (now ev) f) (Finite (of_int (cache_max_age cfg * 3600)))"
  shows "get_data_for_month cfg ev year month fs =
           (case content f of
              Inl e \<Rightarrow> (Inl e, fs, [])
            | Inr rows \<Rightarrow> (Inr (remdups rows), fs, []))"
  using assms by (simp add: get_data_for_month_def is_cache_valid_def)

lemma get_data_miss:
  assumes "\<not> (cache_enabled cfg \<and> is_cache_valid cfg (now ev) fs (get_cache_path year month))"
  shows "get_data_for_month cfg ev year month fs =
           (case month_window year month of
              Inl e \<Rightarrow> (Inl e, fs, [])
            | Inr url \<Rightarrow>
                (case try_block cfg ev year month fs of
                   (Inl e, fs', es) \<Rightarrow>
                     (Inr [], fs', es @ [Log (Error_failed_to_fetch year month e)])
                 | (Inr data, fs', es) \<Rightarrow> (Inr data, fs', es)))"
  by (simp add: get_data_for_month_def assms)

lemma try_block_table:
  assumes "fetch_data cfg ev year month = (Inr (Some (Table rows)), es)"
  shows "try_block cfg ev year month fs =
           (if cache_enabled cfg
            then (Inr (scan_rows cfg rows []),
                  fs(get_cache_path year month \<mapsto>
                       \<lparr> mtime = write_time ev, content = Inr (scan_rows cfg rows []) \<rparr>),
                  es @ [Cache_write year month (scan_rows cfg rows [])])
            else (Inr (scan_rows cfg rows []), fs, es))"
  using assms by (simp add: try_block_def Let_def)

lemma try_block_no_table:
  assumes "fetch_data cfg ev year month = (Inr (Some No_table), es)"
  shows "try_block cfg ev year month fs = (Inr [], fs, es @ [Log (Warning_no_table year month)])"
  using assms by (simp add: try_block_def)

lemma try_block_raises_keeps_files:
  assumes "try_block cfg ev year month fs = (Inl e, fs', es)"
  shows "fs' = fs \<and> (\<forall>fs2. try_block cfg ev year month fs2 = (Inl e, fs2, es))"
  using assms
  by (auto simp add: try_block_def Let_def split: prod.splits sum.splits option.splits
      page.splits if_splits)

lemma try_block_fetch_fails:
  assumes "fetch_data cfg ev year month = (Inl e, es)"
  shows "try_block cfg ev year month fs = (Inl e, fs, es)"
  using assms by (simp add: try_block_def)

lemma month_window_valid:
  "1 \<le> year \<Longrightarrow> year \<le> 9998 \<Longrightarrow> 1 \<le> month \<Longrightarrow> month \<le> 12 \<Longrightarrow>
     month_window year month = Inr (year, month)"
  by (simp add: month_window_def)

lemma no_files_miss: "\<not> is_cache_valid cfg t no_files p"
  by (simp add: is_cache_valid_def no_files_def)

lemma length_row0: "length (row0 x tk v) = length column_keys"
  by (simp add: row0_def column_keys_def)

lemma tuple_of_row0: "tuple_of (insider_of (row0 x tk v)) = tuple0 (strip tk) (strip v)"
  by (simp add: insider_of_row0 tuple_of_def tuple0_def)

lemma accept_row0:
  "apply_filters cfg0 (insider_of (row0 x ''ACME'' ''$25,000''))"
  "\<not> apply_filters cfg0 (insider_of (row0 x ''INIT'' ''$24,999''))"
  by (simp_all add: apply_filters_def insider_of_row0 strip_examples
      clean_numeric_25000 clean_numeric_24999 clean_numeric_2500 cfg0_def)

lemma scan_rows_examples:
  "scan_rows cfg0 [row0 ''D'' ''ACME'' ''$25,000'', row0 ''M'' ''ACME'' ''$25,000''] [] =
     [tuple0 ''ACME'' ''$25,000'']"
  "scan_rows cfg0 [row0 ''D'' ''ACME'' ''$25,000'', row0 ''D'' ''INIT'' ''$24,999''] [] =
     [tuple0 ''ACME'' ''$25,000'']"
  "scan_rows cfg0 [row0 ''D'' ''ACME'' ''$25,000''] [] = [tuple0 ''ACME'' ''$25,000'']"
  by (simp_all add: length_row0 accept_row0 tuple_of_row0 strip_examples set_add_def)

subsection \<open>Filtering, deduplication and the cache of one unit\<close>

lemma cache_enabled_cfg0: "cache_enabled cfg0"
  by (simp add: cfg0_def)

lemma write_time_env_page: "write_time (env_page pg) = 1700000007"
  by (simp add: env_page_def)

lemma count_list_distinct:
  "distinct xs \<Longrightarrow> count_list xs x = (if x \<in> set xs then 1 else 0)"
  by (induction xs) auto

lemma try_block_result_independent_of_files:
  "fst (try_block cfg ev year month fs) = fst (try_block cfg ev year month fs2)
   \<and> snd (snd (try_block cfg ev year month fs)) = snd (snd (try_block cfg ev year month fs2))"
  by (simp add: try_block_def Let_def split: prod.splits sum.splits option.splits page.splits)

lemma fetch_data_starts_with_get:
  "\<exists>es. snd (fetch_data cfg ev year month) = Http_get year month # es"
  by (simp add: fetch_data_def numeral_3_eq_3 split: prod.splits sum.splits)

lemma try_block_starts_with_get:
  "\<exists>es. snd (snd (try_block cfg ev year month fs)) = Http_get year month # es"
proof -
  obtain r es where f: "fetch_data cfg ev year month = (r, es)" by force
  obtain es0 where "es = Http_get year month # es0"
    using fetch_data_starts_with_get[of cfg ev year month] f by auto
  then show ?thesis
    using f
    by (auto simp add: try_block_def Let_def split: prod.splits sum.splits option.splits
        page.splits)
qed

text \<open>
  C1. On the path that fetches the unit's table, a row on which \<^verbatim>\<open>_apply_filters\<close>
  returns \<^verbatim>\<open>False\<close> leaves no record behind: its tuple of the twelve retained fields
  is not in the set that \<^verbatim>\<open>_get_data_for_month\<close> returns, not in anything the call
  writes to a cache file, and not in the unit's cache file after the call if the call
  changed it. (When the cache entry is fresh the call reads no row: it returns the stored
  set as it is.)
\<close>

theorem rejected_row_never_stored:
  assumes miss:
      "\<not> (cache_enabled cfg \<and> is_cache_valid cfg (now ev) fs (get_cache_path year month))"
    and fetched: "fetch_data cfg ev year month = (Inr (Some (Table rows)), es)"
    and row: "cols \<in> set rows" "length cols = length column_keys"
    and rejected: "apply_filters cfg (insider_of cols) = False"
    and run: "get_data_for_month cfg ev year month fs = (r, fs', es')"
  shows "(\<forall>data. r = Inr data \<longrightarrow> tuple_of (insider_of cols) \<notin> set data)
     \<and> (\<forall>y m written. Cache_write y m written \<in> set es' \<longrightarrow>
           tuple_of (insider_of cols) \<notin> set written)
     \<and> (\<forall>f written.
           fs' (get_cache_path year month) = Some f
           \<and> fs' (get_cache_path year month) \<noteq> fs (get_cache_path year month)
           \<and> content f = Inr written \<longrightarrow>
           tuple_of (insider_of cols) \<notin> set written)"
proof -
  let ?t = "tuple_of (insider_of cols)"
  let ?data = "scan_rows cfg rows []"
  have notin: "?t \<notin> set ?data"
  proof
    assume "?t \<in> set ?data"
    then obtain d where "?t = tuple_of d" "apply_filters cfg d"
      using scan_rows_accepted by blast
    then show False using rejected by (simp add: tuple_of_inject)
  qed
  have nw: "Cache_write y m w \<notin> set es" for y m w
    using fetch_data_no_write[of y m w cfg ev year month] fetched by simp
  show ?thesis
  proof (cases "month_window year month")
    case (Inl e)
    then show ?thesis using run get_data_miss[OF miss] by auto
  next
    case (Inr url)
    show ?thesis
    proof (cases "cache_enabled cfg")
      case True
      then show ?thesis
        using run get_data_miss[OF miss] Inr try_block_table[OF fetched, of fs] notin nw
        by auto
    next
      case False
      then show ?thesis
        using run get_data_miss[OF miss] Inr try_block_table[OF fetched, of fs] notin nw
        by auto
    qed
  qed
qed

theorem rejected_row_never_stored_witness:
  "apply_filters cfg0 (insider_of (row0 ''D'' ''INIT'' ''$24,999'')) = False
   \<and> get_data_for_month cfg0
        (env_page (Table [row0 ''D'' ''ACME'' ''$25,000'', row0 ''D'' ''INIT'' ''$24,999'']))
        2024 1 no_files =
      (Inr [tuple0 ''ACME'' ''$25,000''],
       no_files(get_cache_path 2024 1 \<mapsto>
                  \<lparr> mtime = 1700000007, content = Inr [tuple0 ''ACME'' ''$25,000''] \<rparr>),
       [Http_get 2024 1, Cache_write 2024 1 [tuple0 ''ACME'' ''$25,000'']])
   \<and> tuple0 ''INIT'' ''$24,999'' \<notin> set [tuple0 ''ACME'' ''$25,000'']"
proof -
  let ?rows = "[row0 ''D'' ''ACME'' ''$25,000'', row0 ''D'' ''INIT'' ''$24,999'']"
  let ?ev = "env_page (Table ?rows)"
  have miss: "\<not> (cache_enabled cfg0 \<and> is_cache_valid cfg0 (now ?ev) no_files (get_cache_path 2024 1))"
    by (simp add: no_files_miss)
  have fetched: "fetch_data cfg0 ?ev 2024 1 = (Inr (Some (Table ?rows)), [Http_get 2024 1])"
    by (rule fetch_data_first_ok) (simp add: env_page_def)
  have row: "row0 ''D'' ''INIT'' ''$24,999'' \<in> set ?rows"
    "length (row0 ''D'' ''INIT'' ''$24,999'') = length column_keys"
    by (simp_all add: length_row0)
  have rejected: "apply_filters cfg0 (insider_of (row0 ''D'' ''INIT'' ''$24,999'')) = False"
    by (simp add: accept_row0)
  have run: "get_data_for_month cfg0 ?ev 2024 1 no_files =
      (Inr [tuple0 ''ACME'' ''$25,000''],
       no_files(get_cache_path 2024 1 \<mapsto>
                  \<lparr> mtime = 1700000007, content = Inr [tuple0 ''ACME'' ''$25,000''] \<rparr>),
       [Http_get 2024 1, Cache_write 2024 1 [tuple0 ''ACME'' ''$25,000'']])"
    by (simp add: get_data_miss[OF miss] month_window_def try_block_table[OF fetched]
        scan_rows_examples cache_enabled_cfg0 write_time_env_page del: scan_rows.simps)
  from rejected_row_never_stored[OF miss fetched row rejected run]
  have "tuple_of (insider_of (row0 ''D'' ''INIT'' ''$24,999'')) \<notin> set [tuple0 ''ACME'' ''$25,000'']"
    by blast
  then show ?thesis using rejected run by (simp add: tuple_of_row0 strip_examples)
qed

text \<open>
  C7. On the path that fetches the unit's table the output of
  \<^verbatim>\<open>_get_data_for_month\<close> is a set: it holds no tuple twice, its elements are the
  tuples of the rows of seventeen cells that pass the filter, and each such row's tuple
  occurs in it exactly once however many rows carry the same twelve retained values.
  Two tuples are the same element exactly when all twelve fields are equal.
\<close>

theorem unit_output_is_a_set:
  assumes miss:
      "\<not> (cache_enabled cfg \<and> is_cache_valid cfg (now ev) fs (get_cache_path year month))"
    and valid: "month_window year month = Inr url"
    and fetched: "fetch_data cfg ev year month = (Inr (Some (Table rows)), es)"
    and run: "get_data_for_month cfg ev year month fs = (r, fs', es')"
  shows "(\<exists>data. r = Inr data \<and> distinct data
            \<and> set data =
                {tuple_of (insider_of c) |c.
                   c \<in> set rows \<and> length c = length column_keys
                   \<and> apply_filters cfg (insider_of c)}
            \<and> (\<forall>c \<in> set rows.
                  length c = length column_keys \<and> apply_filters cfg (insider_of c) \<longrightarrow>
                  count_list data (tuple_of (insider_of c)) = 1))
     \<and> (\<forall>d d'. (tuple_of d = tuple_of d') =
           (filing_date d = filing_date d' \<and> trade_date d = trade_date d'
            \<and> ticker d = ticker d' \<and> company_name d = company_name d'
            \<and> owner_name d = owner_name d' \<and> title d = title d'
            \<and> trade_type d = trade_type d' \<and> price d = price d' \<and> qty d = qty d'
            \<and> owned d = owned d' \<and> change_pct d = change_pct d' \<and> value' d = value' d'))"
proof -
  let ?data = "scan_rows cfg rows []"
  have r: "r = Inr ?data"
    using run get_data_miss[OF miss] valid try_block_table[OF fetched, of fs]
    by (auto split: if_splits)
  have d: "distinct ?data" by (simp add: distinct_scan_rows)
  have s: "set ?data =
      {tuple_of (insider_of c) |c.
         c \<in> set rows \<and> length c = length column_keys \<and> apply_filters cfg (insider_of c)}"
    by (simp add: set_scan_rows)
  have c: "count_list ?data (tuple_of (insider_of c)) = 1"
    if "c \<in> set rows" "length c = length column_keys" "apply_filters cfg (insider_of c)" for c
  proof -
    have "tuple_of (insider_of c) \<in> set ?data" using that s by blast
    then show ?thesis using d by (simp add: count_list_distinct)
  qed
  have t: "(tuple_of d = tuple_of d') =
           (filing_date d = filing_date d' \<and> trade_date d = trade_date d'
            \<and> ticker d = ticker d' \<and> company_name d = company_name d'
            \<and> owner_name d = owner_name d' \<and> title d = title d'
            \<and> trade_type d = trade_type d' \<and> price d = price d' \<and> qty d = qty d'
            \<and> owned d = owned d' \<and> change_pct d = change_pct d' \<and> value' d = value' d')"
    for d d' :: insider_data
    by (simp add: tuple_of_def)
  show ?thesis using r d s c t by blast
qed

theorem unit_output_is_a_set_witness:
  "fst (get_data_for_month cfg0
         (env_page (Table [row0 ''D'' ''ACME'' ''$25,000'', row0 ''M'' ''ACME'' ''$25,000'']))
         2024 1 no_files) = Inr [tuple0 ''ACME'' ''$25,000'']
   \<and> count_list [tuple0 ''ACME'' ''$25,000'']
        (tuple_of (insider_of (row0 ''M'' ''ACME'' ''$25,000''))) = 1
   \<and> row0 ''D'' ''ACME'' ''$25,000'' \<noteq> row0 ''M'' ''ACME'' ''$25,000''"
proof -
  let ?rows = "[row0 ''D'' ''ACME'' ''$25,000'', row0 ''M'' ''ACME'' ''$25,000'']"
  let ?ev = "env_page (Table ?rows)"
  have miss: "\<not> (cache_enabled cfg0 \<and> is_cache_valid cfg0 (now ?ev) no_files (get_cache_path 2024 1))"
    by (simp add: no_files_miss)
  have valid: "month_window 2024 1 = Inr (2024, 1)" by (simp add: month_window_def)
  have fetched: "fetch_data cfg0 ?ev 2024 1 = (Inr (Some (Table ?rows)), [Http_get 2024 1])"
    by (rule fetch_data_first_ok) (simp add: env_page_def)
  obtain r fs' es' where run: "get_data_for_month cfg0 ?ev 2024 1 no_files = (r, fs', es')"
    using prod_cases3 by blast
  have r: "r = Inr [tuple0 ''ACME'' ''$25,000'']"
    using run
    by (simp add: get_data_miss[OF miss] month_window_def try_block_table[OF fetched]
        scan_rows_examples cache_enabled_cfg0 del: scan_rows.simps)
  from unit_output_is_a_set[OF miss valid fetched run]
  have "\<forall>c \<in> set ?rows.
          length c = length column_keys \<and> apply_filters cfg0 (insider_of c) \<longrightarrow>
          count_list [tuple0 ''ACME'' ''$25,000''] (tuple_of (insider_of c)) = 1"
    using r by auto
  then have "count_list [tuple0 ''ACME'' ''$25,000'']
               (tuple_of (insider_of (row0 ''M'' ''ACME'' ''$25,000''))) = 1"
    by (simp add: length_row0 accept_row0)
  then show ?thesis using run r by (simp add: row0_def)
qed

text \<open>
  C8. The claim as stated fails when the page has no table: with caching enabled, no cache
  entry and a fetch that succeeds, the call returns the empty set after one request and
  one warning and writes no cache file.
\<close>

theorem no_table_writes_no_cache:
  "cache_enabled cfg0
   \<and> \<not> is_cache_valid cfg0 (now (env_page No_table)) no_files (get_cache_path 2024 2)
   \<and> fetch_data cfg0 (env_page No_table) 2024 2 = (Inr (Some No_table), [Http_get 2024 2])
   \<and> get_data_for_month cfg0 (env_page No_table) 2024 2 no_files =
       (Inr [], no_files, [Http_get 2024 2, Log (Warning_no_table 2024 2)])
   \<and> no_files (get_cache_path 2024 2) = None"
proof -
  have miss: "\<not> (cache_enabled cfg0
       \<and> is_cache_valid cfg0 (now (env_page No_table)) no_files (get_cache_path 2024 2))"
    by (simp add: no_files_miss)
  have fetched: "fetch_data cfg0 (env_page No_table) 2024 2 =
      (Inr (Some No_table), [Http_get 2024 2])"
    by (rule fetch_data_first_ok) (simp add: env_page_def)
  show ?thesis
    by (simp add: get_data_miss[OF miss] month_window_def try_block_no_table[OF fetched]
        fetched no_files_miss cache_enabled_cfg0) (simp add: no_files_def)
qed

text \<open>
  C8, amended. On a cache miss with a fetch that succeeds and a page whose table and table
  body are found, the call goes from the fetch through parsing, filtering and
  deduplication to the cache write: with caching enabled it returns the deduplicated
  filtered set, the unit's cache file holds exactly that set, and the write is the last
  effect of the call, after the request. When the page has no table the call returns the
  empty set with a warning and the files are unchanged.
\<close>

theorem cache_written_when_table_found:
  assumes miss:
      "\<not> (cache_enabled cfg \<and> is_cache_valid cfg (now ev) fs (get_cache_path year month))"
    and valid: "month_window year month = Inr url"
    and run: "get_data_for_month cfg ev year month fs = (r, fs', es')"
  shows "(\<forall>rows es.
            fetch_data cfg ev year month = (Inr (Some (Table rows)), es) \<and> cache_enabled cfg \<longrightarrow>
            r = Inr (scan_rows cfg rows []) \<and> distinct (scan_rows cfg rows [])
            \<and> fs' = fs(get_cache_path year month \<mapsto>
                        \<lparr> mtime = write_time ev, content = Inr (scan_rows cfg rows []) \<rparr>)
            \<and> es' = es @ [Cache_write year month (scan_rows cfg rows [])]
            \<and> Http_get year month \<in> set es)
     \<and> (\<forall>es.
            fetch_data cfg ev year month = (Inr (Some No_table), es) \<longrightarrow>
            r = Inr [] \<and> fs' = fs \<and> es' = es @ [Log (Warning_no_table year month)])"
proof -
  have a: "r = Inr (scan_rows cfg rows []) \<and> distinct (scan_rows cfg rows [])
            \<and> fs' = fs(get_cache_path year month \<mapsto>
                        \<lparr> mtime = write_time ev, content = Inr (scan_rows cfg rows []) \<rparr>)
            \<and> es' = es @ [Cache_write year month (scan_rows cfg rows [])]
            \<and> Http_get year month \<in> set es"
    if f: "fetch_data cfg ev year month = (Inr (Some (Table rows)), es)" and c: "cache_enabled cfg"
    for rows es
  proof -
    have "Http_get year month \<in> set es"
      using fetch_data_starts_with_get[of cfg ev year month] f by auto
    then show ?thesis
      using run get_data_miss[OF miss] valid try_block_table[OF f, of fs] c
      by (auto simp add: distinct_scan_rows)
  qed
  have b: "r = Inr [] \<and> fs' = fs \<and> es' = es @ [Log (Warning_no_table year month)]"
    if f: "fetch_data cfg ev year month = (Inr (Some No_table), es)" for es
    using run get_data_miss[OF miss] valid try_block_no_table[OF f, of fs] by auto
  show ?thesis using a b by blast
qed

theorem cache_written_when_table_found_witness:
  "get_data_for_month cfg0 (env_page (Table [row0 ''D'' ''ACME'' ''$25,000''])) 2024 1 no_files =
     (Inr [tuple0 ''ACME'' ''$25,000''],
      no_files(get_cache_path 2024 1 \<mapsto>
                 \<lparr> mtime = 1700000007, content = Inr [tuple0 ''ACME'' ''$25,000''] \<rparr>),
      [Http_get 2024 1, Cache_write 2024 1 [tuple0 ''ACME'' ''$25,000'']])"
proof -
  let ?rows = "[row0 ''D'' ''ACME'' ''$25,000'']"
  let ?ev = "env_page (Table ?rows)"
  have miss: "\<not> (cache_enabled cfg0 \<and> is_cache_valid cfg0 (now ?ev) no_files (get_cache_path 2024 1))"
    by (simp add: no_files_miss)
  have valid: "month_window 2024 1 = Inr (2024, 1)" by (simp add: month_window_def)
  have fetched: "fetch_data cfg0 ?ev 2024 1 = (Inr (Some (Table ?rows)), [Http_get 2024 1])"
    by (rule fetch_data_first_ok) (simp add: env_page_def)
  have c: "cache_enabled cfg0" by (rule cache_enabled_cfg0)
  obtain r fs' es' where run: "get_data_for_month cfg0 ?ev 2024 1 no_files = (r, fs', es')"
    using prod_cases3 by blast
  from cache_written_when_table_found[OF miss valid run] fetched c
  have "r = Inr (scan_rows cfg0 ?rows [])
        \<and> fs' = no_files(get_cache_path 2024 1 \<mapsto>
                    \<lparr> mtime = write_time ?ev, content = Inr (scan_rows cfg0 ?rows []) \<rparr>)
        \<and> es' = [Http_get 2024 1] @ [Cache_write 2024 1 (scan_rows cfg0 ?rows [])]"
    by blast
  then show ?thesis
    using run by (simp add: scan_rows_examples write_time_env_page del: scan_rows.simps)
qed

subsection \<open>The freshness of the cache\<close>

lemma get_data_miss_independent_of_files:
  assumes "\<not> (cache_enabled cfg \<and> is_cache_valid cfg (now ev) fs (get_cache_path year month))"
    and "\<not> (cache_enabled cfg \<and> is_cache_valid cfg (now ev) fs2 (get_cache_path year month))"
  shows "fst (get_data_for_month cfg ev year month fs) =
           fst (get_data_for_month cfg ev year month fs2)
       \<and> snd (snd (get_data_for_month cfg ev year month fs)) =
           snd (snd (get_data_for_month cfg ev year month fs2))"
proof -
  obtain a b c where t1: "try_block cfg ev year month fs = (a, b, c)"
    using prod_cases3 by blast
  obtain a2 b2 c2 where t2: "try_block cfg ev year month fs2 = (a2, b2, c2)"
    using prod_cases3 by blast
  have "a = a2" "c = c2"
    using try_block_result_independent_of_files[of cfg ev year month fs fs2] t1 t2 by simp_all
  then show ?thesis
    by (simp add: get_data_miss[OF assms(1)] get_data_miss[OF assms(2)] t1 t2
        split: sum.splits)
qed

lemma get_data_miss_starts_with_get:
  assumes "\<not> (cache_enabled cfg \<and> is_cache_valid cfg (now ev) fs (get_cache_path year month))"
    and "month_window year month = Inr url"
  shows "\<exists>es. snd (snd (get_data_for_month cfg ev year month fs)) = Http_get year month # es"
proof -
  obtain a b c where t1: "try_block cfg ev year month fs = (a, b, c)"
    using prod_cases3 by blast
  obtain es where "c = Http_get year month # es"
    using try_block_starts_with_get[of cfg ev year month fs] t1 by auto
  then show ?thesis
    by (simp add: get_data_miss[OF assms(1)] assms(2) t1 split: sum.splits)
qed

text \<open>
  C2. With caching enabled, when the unit's cache file exists and its age is strictly
  below \<^verbatim>\<open>cache_max_age * 3600\<close>, \<^verbatim>\<open>_get_data_for_month\<close> returns the set of
  the stored tuples, touches no file and has no effect at all: no request is sent. When
  the file is missing, or its age is not strictly below the limit, the entry counts for
  nothing: the call returns the same value with the same effects as when the file is
  absent, whatever the file holds, and with a valid month it starts with a request.
\<close>

theorem fresh_cache_is_served:
  "(cache_enabled cfg \<and> fs (get_cache_path year month) = Some f
      \<and> flt (cache_age (now ev) f) (Finite (of_int (cache_max_age cfg * 3600))) \<longrightarrow>
      (\<forall>rows. content f = Inr rows \<longrightarrow>
         fst (get_data_for_month cfg ev year month fs) = Inr (remdups rows)
         \<and> set (remdups rows) = set rows)
      \<and> fst (snd (get_data_for_month cfg ev year month fs)) = fs
      \<and> snd (snd (get_data_for_month cfg ev year month fs)) = []
      \<and> (\<forall>y m. Http_get y m \<notin> set (snd (snd (get_data_for_month cfg ev year month fs)))))
   \<and> (fs (get_cache_path year month) = None \<longrightarrow>
        \<not> is_cache_valid cfg (now ev) fs (get_cache_path year month)
        \<and> (\<forall>url. month_window year month = Inr url \<longrightarrow>
              (\<exists>es. snd (snd (get_data_for_month cfg ev year month fs)) =
                      Http_get year month # es)))
   \<and> (fs (get_cache_path year month) = Some f
        \<and> \<not> flt (cache_age (now ev) f) (Finite (of_int (cache_max_age cfg * 3600))) \<longrightarrow>
        \<not> is_cache_valid cfg (now ev) fs (get_cache_path year month)
        \<and> (\<forall>c. fst (get_data_for_month cfg ev year month fs) =
                  fst (get_data_for_month cfg ev year month
                         (fs(get_cache_path year month \<mapsto> f\<lparr>content := c\<rparr>)))
              \<and> snd (snd (get_data_for_month cfg ev year month fs)) =
                  snd (snd (get_data_for_month cfg ev year month
                         (fs(get_cache_path year month \<mapsto> f\<lparr>content := c\<rparr>)))))
        \<and> fst (get_data_for_month cfg ev year month fs) =
            fst (get_data_for_month cfg ev year month (fs(get_cache_path year month := None)))
        \<and> snd (snd (get_data_for_month cfg ev year month fs)) =
            snd (snd (get_data_for_month cfg ev year month
                       (fs(get_cache_path year month := None))))
        \<and> (\<forall>url. month_window year month = Inr url \<longrightarrow>
              (\<exists>es. snd (snd (get_data_for_month cfg ev year month fs)) =
                      Http_get year month # es)))"
proof -
  let ?p = "get_cache_path year month"
  let ?lim = "Finite (of_int (cache_max_age cfg * 3600))"
  have hit: "(\<forall>rows. content f = Inr rows \<longrightarrow>
         fst (get_data_for_month cfg ev year month fs) = Inr (remdups rows)
         \<and> set (remdups rows) = set rows)
      \<and> fst (snd (get_data_for_month cfg ev year month fs)) = fs
      \<and> snd (snd (get_data_for_month cfg ev year month fs)) = []
      \<and> (\<forall>y m. Http_get y m \<notin> set (snd (snd (get_data_for_month cfg ev year month fs))))"
    if "cache_enabled cfg" "fs ?p = Some f" "flt (cache_age (now ev) f) ?lim"
    using get_data_hit[of cfg fs year month f ev] that by (cases "content f") auto
  have missing: "\<not> is_cache_valid cfg (now ev) fs ?p
        \<and> (\<forall>url. month_window year month = Inr url \<longrightarrow>
              (\<exists>es. snd (snd (get_data_for_month cfg ev year month fs)) =
                      Http_get year month # es))"
    if "fs ?p = None"
  proof -
    have m: "\<not> is_cache_valid cfg (now ev) fs ?p" using that by (simp add: is_cache_valid_def)
    then show ?thesis using get_data_miss_starts_with_get[of cfg ev fs year month] by blast
  qed
  have stale: "\<not> is_cache_valid cfg (now ev) fs ?p
        \<and> (\<forall>c. fst (get_data_for_month cfg ev year month fs) =
                  fst (get_data_for_month cfg ev year month (fs(?p \<mapsto> f\<lparr>content := c\<rparr>)))
              \<and> snd (snd (get_data_for_month cfg ev year month fs)) =
                  snd (snd (get_data_for_month cfg ev year month
                         (fs(?p \<mapsto> f\<lparr>content := c\<rparr>)))))
        \<and> fst (get_data_for_month cfg ev year month fs) =
            fst (get_data_for_month cfg ev year month (fs(?p := None)))
        \<and> snd (snd (get_data_for_month cfg ev year month fs)) =
            snd (snd (get_data_for_month cfg ev year month (fs(?p := None))))
        \<and> (\<forall>url. month_window year month = Inr url \<longrightarrow>
              (\<exists>es. snd (snd (get_data_for_month cfg ev year month fs)) =
                      Http_get year month # es))"
    if "fs ?p = Some f" "\<not> flt (cache_age (now ev) f) ?lim"
  proof -
    have m: "\<not> is_cache_valid cfg (now ev) fs ?p"
      using that by (simp add: is_cache_valid_def)
    have m1: "\<not> is_cache_valid cfg (now ev) (fs(?p \<mapsto> f\<lparr>content := c\<rparr>)) ?p" for c
      using that by (simp add: is_cache_valid_def cache_age_def)
    have m2: "\<not> is_cache_valid cfg (now ev) (fs(?p := None)) ?p"
      by (simp add: is_cache_valid_def)
    show ?thesis
      using m get_data_miss_starts_with_get[of cfg ev fs year month]
        get_data_miss_independent_of_files[of cfg ev fs year month "fs(?p := None)"] m2
        get_data_miss_independent_of_files[of cfg ev fs year month "fs(?p \<mapsto> f\<lparr>content := c\<rparr>)" for c]
        m1
      by blast
  qed
  show ?thesis using hit missing stale by blast
qed

theorem fresh_cache_is_served_witness:
  "get_data_for_month cfg0 env_down 2024 1
     (one_file 2024 1 1699996400 (Inr [tuple0 ''ACME'' ''$25,000'', tuple0 ''ACME'' ''$25,000''])) =
     (Inr [tuple0 ''ACME'' ''$25,000''],
      one_file 2024 1 1699996400 (Inr [tuple0 ''ACME'' ''$25,000'', tuple0 ''ACME'' ''$25,000'']),
      [])
   \<and> cache_age (now env_down) \<lparr> mtime = 1699913600, content = Inr [tuple0 ''ACME'' ''$25,000''] \<rparr>
       = Finite 86400
   \<and> snd (snd (get_data_for_month cfg0 env_down 2024 1
        (one_file 2024 1 1699913600 (Inr [tuple0 ''ACME'' ''$25,000''])))) =
      snd (snd (get_data_for_month cfg0 env_down 2024 1 no_files))"
proof -
  let ?t = "tuple0 ''ACME'' ''$25,000''"
  let ?f = "\<lparr> mtime = 1699996400, content = Inr [?t, ?t] \<rparr>"
  let ?g = "\<lparr> mtime = 1699913600, content = Inr [?t] \<rparr>"
  have en: "cache_enabled cfg0" by (rule cache_enabled_cfg0)
  have age: "cache_age (now env_down) ?f = Finite 3600"
    using b64_round_int[of 3600] by (simp add: cache_age_def env_down_def)
  have age2: "cache_age (now env_down) ?g = Finite 86400"
    using b64_round_int[of 86400] by (simp add: cache_age_def env_down_def)
  have lim: "cache_max_age cfg0 = 24" by (simp add: cfg0_def)
  have f: "one_file 2024 1 1699996400 (Inr [?t, ?t]) (get_cache_path 2024 1) = Some ?f"
    by (simp add: one_file_def)
  have g: "one_file 2024 1 1699913600 (Inr [?t]) (get_cache_path 2024 1) = Some ?g"
    by (simp add: one_file_def)
  have none: "(one_file 2024 1 1699913600 (Inr [?t]))(get_cache_path 2024 1 := None) = no_files"
    by (auto simp add: one_file_def no_files_def)
  have fresh: "flt (cache_age (now env_down) ?f) (Finite (of_int (cache_max_age cfg0 * 3600)))"
    by (simp add: age lim)
  have old: "\<not> flt (cache_age (now env_down) ?g) (Finite (of_int (cache_max_age cfg0 * 3600)))"
    by (simp add: age2 lim)
  note th = fresh_cache_is_served[of cfg0 "one_file 2024 1 1699996400 (Inr [?t, ?t])" 2024 1 ?f env_down]
  note th2 = fresh_cache_is_served[of cfg0 "one_file 2024 1 1699913600 (Inr [?t])" 2024 1 ?g env_down]
  have 1: "get_data_for_month cfg0 env_down 2024 1 (one_file 2024 1 1699996400 (Inr [?t, ?t])) =
     (Inr [?t], one_file 2024 1 1699996400 (Inr [?t, ?t]), [])"
    using th en f fresh by (simp add: prod_eq_iff)
  have 2: "snd (snd (get_data_for_month cfg0 env_down 2024 1 (one_file 2024 1 1699913600 (Inr [?t])))) =
      snd (snd (get_data_for_month cfg0 env_down 2024 1 no_files))"
    using th2 g old none by simp
  show ?thesis using 1 2 age2 by simp
qed

subsection \<open>The retry policy\<close>

text \<open>
  C3. The number of attempts is the constant 3 of the decorator, not
  \<^verbatim>\<open>retry_attempts\<close>: \<^verbatim>\<open>_fetch_data\<close> does the same whatever that field holds.
  With \<^verbatim>\<open>retry_attempts = 10\<close> and a source that fails three times and would answer
  the fourth request, the failure is raised after three requests and the sleeps of 2 and
  4 seconds.
\<close>

theorem fetch_data_ignores_retry_attempts:
  "fetch_data (cfg\<lparr>retry_attempts := n\<rparr>) ev year month = fetch_data cfg ev year month
   \<and> retry_attempts cfg0 = 10
   \<and> responses (env_flaky (Table [])) 3 = Inr (Table [])
   \<and> fetch_data cfg0 (env_flaky (Table [])) 2024 1 =
       (Inl RequestException,
        [Http_get 2024 1, Log (Warning_retrying RequestException 2), Sleep 2,
         Http_get 2024 1, Log (Warning_retrying RequestException 4), Sleep 4,
         Http_get 2024 1])"
proof -
  have "fetch_data cfg0 (env_flaky (Table [])) 2024 1 =
       (Inl RequestException,
        [Http_get 2024 1, Log (Warning_retrying RequestException 2), Sleep 2,
         Http_get 2024 1, Log (Warning_retrying RequestException 4), Sleep 4,
         Http_get 2024 1])"
    by (rule fetch_data_all_fail) (simp_all add: env_flaky_def)
  then show ?thesis by (simp add: fetch_data_def cfg0_def env_flaky_def)
qed

subsection \<open>The orchestrator\<close>

text \<open>
  The calls of a run: a call changes no cache file but its own, the calls of a list of
  units are the calls of its two parts one after the other, and a unit whose call leaves
  the files as they are can be taken out of the list without any change to the other
  calls.
\<close>

lemma get_data_for_month_frame:
  assumes "get_data_for_month cfg ev year month fs = (r, fs', es)"
    and "p \<noteq> get_cache_path year month"
  shows "fs' p = fs p"
  using assms
  by (auto simp add: get_data_for_month_def try_block_def Let_def
      split: if_splits option.splits sum.splits prod.splits page.splits)

lemma run_units_frame:
  "run_units cfg envs us fs = (rs, fs', es) \<Longrightarrow> u \<notin> set us \<Longrightarrow>
     fs' (get_cache_path (fst u) (snd u)) = fs (get_cache_path (fst u) (snd u))"
proof (induction us arbitrary: fs rs fs' es)
  case Nil
  then show ?case by simp
next
  case (Cons v us)
  obtain r f1 e1 where g: "get_data_for_month cfg (envs v) (fst v) (snd v) fs = (r, f1, e1)"
    using prod_cases3 by blast
  obtain rs2 f2 e2 where rest: "run_units cfg envs us f1 = (rs2, f2, e2)"
    using prod_cases3 by blast
  have "fs' = f2" using Cons.prems(1) g rest by simp
  moreover have "f2 (get_cache_path (fst u) (snd u)) = f1 (get_cache_path (fst u) (snd u))"
    using Cons.IH[OF rest] Cons.prems(2) by simp
  moreover have "get_cache_path (fst u) (snd u) \<noteq> get_cache_path (fst v) (snd v)"
    using Cons.prems(2) by (auto simp add: get_cache_path_def prod_eq_iff)
  then have "f1 (get_cache_path (fst u) (snd u)) = fs (get_cache_path (fst u) (snd u))"
    using get_data_for_month_frame[OF g] by simp
  ultimately show ?case by simp
qed

lemma run_units_append:
  "run_units cfg envs (earlier @ later) fs =
     (case run_units cfg envs earlier fs of
        (rs1, f1, e1) \<Rightarrow>
          (case run_units cfg envs later f1 of
             (rs2, f2, e2) \<Rightarrow> (rs1 @ rs2, f2, e1 @ e2)))"
  by (induction earlier arbitrary: fs) (auto split: prod.splits)

lemma length_run_units:
  "run_units cfg envs us fs = (rs, fs', es) \<Longrightarrow> length rs = length us"
  by (induction us arbitrary: fs rs fs' es) (auto split: prod.splits)

lemma run_units_skip:
  assumes first: "u \<notin> set earlier"
    and silent: "\<And>fs1. fs1 (get_cache_path (fst u) (snd u)) = fs (get_cache_path (fst u) (snd u))
        \<Longrightarrow> get_data_for_month cfg (envs u) (fst u) (snd u) fs1 = (r, fs1, esu)"
  shows "\<exists>rs1 f1 e1 rs2 f2 e2.
           run_units cfg envs earlier fs = (rs1, f1, e1)
           \<and> run_units cfg envs later f1 = (rs2, f2, e2)
           \<and> length rs1 = length earlier \<and> length rs2 = length later
           \<and> run_units cfg envs (earlier @ later) fs = (rs1 @ rs2, f2, e1 @ e2)
           \<and> run_units cfg envs (earlier @ u # later) fs = (rs1 @ r # rs2, f2, e1 @ esu @ e2)"
proof -
  obtain rs1 f1 e1 where a: "run_units cfg envs earlier fs = (rs1, f1, e1)"
    using prod_cases3 by blast
  obtain rs2 f2 e2 where b: "run_units cfg envs later f1 = (rs2, f2, e2)"
    using prod_cases3 by blast
  have "f1 (get_cache_path (fst u) (snd u)) = fs (get_cache_path (fst u) (snd u))"
    using run_units_frame[OF a first] .
  then have g: "get_data_for_month cfg (envs u) (fst u) (snd u) f1 = (r, f1, esu)"
    by (rule silent)
  have "run_units cfg envs (earlier @ later) fs = (rs1 @ rs2, f2, e1 @ e2)"
    by (simp add: run_units_append a b)
  moreover have "run_units cfg envs (earlier @ u # later) fs = (rs1 @ r # rs2, f2, e1 @ esu @ e2)"
    by (simp add: run_units_append a b g)
  ultimately show ?thesis
    using a b length_run_units[OF a] length_run_units[OF b] by blast
qed

lemma aggregate_append:
  "aggregate (rs1 @ rs2) =
     (fst (aggregate rs1) @ fst (aggregate rs2), snd (aggregate rs1) @ snd (aggregate rs2))"
  by (induction rs1 rule: aggregate.induct) (auto split: prod.splits)

lemma aggregate_concat:
  "fst (aggregate rs) = concat (map (case_sum (\<lambda>e. []) (\<lambda>data. data)) rs)"
  by (induction rs rule: aggregate.induct) (auto split: prod.splits)

lemma fst_scrape:
  "fst (scrape cfg envs current_year current_month fs) =
     fst (aggregate (fst (run_units cfg envs (work_units cfg current_year current_month) fs)))"
  by (simp add: scrape_def split: prod.splits)

lemma get_data_for_month_distinct:
  assumes "get_data_for_month cfg ev year month fs = (Inr data, fs', es)"
  shows "distinct data"
  using assms
  by (auto simp add: get_data_for_month_def try_block_def Let_def distinct_scan_rows
      split: if_splits option.splits sum.splits prod.splits page.splits)

lemma run_units_distinct:
  "run_units cfg envs us fs = (rs, fs', es) \<Longrightarrow> Inr data \<in> set rs \<Longrightarrow> distinct data"
proof (induction us arbitrary: fs rs fs' es)
  case Nil
  then show ?case by simp
next
  case (Cons v us)
  obtain r f1 e1 where g: "get_data_for_month cfg (envs v) (fst v) (snd v) fs = (r, f1, e1)"
    using prod_cases3 by blast
  obtain rs2 f2 e2 where rest: "run_units cfg envs us f1 = (rs2, f2, e2)"
    using prod_cases3 by blast
  have rs: "rs = r # rs2" using Cons.prems(1) g rest by simp
  show ?case
  proof (cases "Inr data = r")
    case True
    then show ?thesis using get_data_for_month_distinct[of cfg "envs v" "fst v" "snd v" fs data f1 e1] g
      by simp
  next
    case False
    then have "Inr data \<in> set rs2" using Cons.prems(2) rs by auto
    then show ?thesis using Cons.IH[OF rest] by simp
  qed
qed

lemma count_list_aggregate:
  assumes "\<And>data. Inr data \<in> set rs \<Longrightarrow> distinct data"
  shows "count_list (fst (aggregate rs)) t =
           length (filter (\<lambda>r. case r of Inl e \<Rightarrow> False | Inr data \<Rightarrow> t \<in> set data) rs)"
  using assms
proof (induction rs rule: aggregate.induct)
  case 1
  then show ?case by simp
next
  case (2 data rs)
  have d: "distinct data" using 2(2)[of data] by simp
  have "count_list (fst (aggregate rs)) t =
          length (filter (\<lambda>r. case r of Inl e \<Rightarrow> False | Inr data \<Rightarrow> t \<in> set data) rs)"
    using 2 by simp
  then show ?case using d by (cases "aggregate rs") (auto simp add: count_list_distinct)
next
  case (3 e rs)
  then show ?case by (cases "aggregate rs") auto
qed

lemma two_hits_in_filter:
  assumes "i < j" "j < length xs" "P (xs ! i)" "P (xs ! j)"
  shows "2 \<le> length (filter P xs)"
proof -
  have sub: "{i, j} \<subseteq> {k. k < length xs \<and> P (xs ! k)}" using assms by auto
  have "card {i, j} \<le> card {k. k < length xs \<and> P (xs ! k)}"
    by (rule card_mono[OF _ sub]) simp
  moreover have "card {i, j} = 2" using assms(1) by simp
  ultimately show ?thesis by (simp add: length_filter_conv_card)
qed

lemma work_units_example: "work_units cfg0 2024 3 = [(2024, 1), (2024, 2), (2024, 3)]"
  by (simp add: work_units_def cfg0_def upto.simps)

text \<open>
  C9. The list \<^verbatim>\<open>all_data\<close> that \<^verbatim>\<open>scrape\<close> hands to \<^verbatim>\<open>_save_data\<close> is the
  concatenation of the sets the units returned, a unit that raised adding nothing; nothing
  is removed across units. A tuple occurs in it as many times as there are units whose set
  holds it: at least twice when two different units returned it.
\<close>

theorem aggregate_keeps_duplicates_across_units:
  assumes run: "run_units cfg envs (work_units cfg current_year current_month) fs = (rs, fs', es)"
  shows "fst (scrape cfg envs current_year current_month fs) =
           concat (map (case_sum (\<lambda>e. []) (\<lambda>data. data)) rs)
     \<and> count_list (fst (scrape cfg envs current_year current_month fs)) t =
         length (filter (\<lambda>r. case r of Inl e \<Rightarrow> False | Inr data \<Rightarrow> t \<in> set data) rs)
     \<and> (\<forall>i j d1 d2.
           i < j \<and> j < length rs \<and> rs ! i = Inr d1 \<and> rs ! j = Inr d2
           \<and> t \<in> set d1 \<and> t \<in> set d2 \<longrightarrow>
           2 \<le> count_list (fst (scrape cfg envs current_year current_month fs)) t)"
proof -
  let ?P = "\<lambda>r. case r of Inl e \<Rightarrow> False | Inr data \<Rightarrow> t \<in> set data"
  have s: "fst (scrape cfg envs current_year current_month fs) = fst (aggregate rs)"
    by (simp add: fst_scrape run)
  have c: "count_list (fst (aggregate rs)) t = length (filter ?P rs)"
    by (rule count_list_aggregate) (rule run_units_distinct[OF run])
  have "2 \<le> length (filter ?P rs)"
    if "i < j" "j < length rs" "rs ! i = Inr d1" "rs ! j = Inr d2" "t \<in> set d1" "t \<in> set d2"
    for i j d1 d2
    using two_hits_in_filter[of i j rs ?P] that by simp
  then show ?thesis using s c aggregate_concat[of rs] by auto
qed

lemma unit_table_example:
  assumes "fs (get_cache_path year month) = None"
    and "1 \<le> year" "year \<le> 9998" "1 \<le> month" "month \<le> 12"
  shows "get_data_for_month cfg0 (env_page (Table [row0 ''D'' ''ACME'' ''$25,000''])) year month fs =
     (Inr [tuple0 ''ACME'' ''$25,000''],
      fs(get_cache_path year month \<mapsto>
           \<lparr> mtime = 1700000007, content = Inr [tuple0 ''ACME'' ''$25,000''] \<rparr>),
      [Http_get year month, Cache_write year month [tuple0 ''ACME'' ''$25,000'']])"
proof -
  let ?ev = "env_page (Table [row0 ''D'' ''ACME'' ''$25,000''])"
  have miss: "\<not> (cache_enabled cfg0 \<and> is_cache_valid cfg0 (now ?ev) fs (get_cache_path year month))"
    using assms(1) by (simp add: is_cache_valid_def)
  have fetched: "fetch_data cfg0 ?ev year month =
      (Inr (Some (Table [row0 ''D'' ''ACME'' ''$25,000''])), [Http_get year month])"
    by (rule fetch_data_first_ok) (simp add: env_page_def)
  show ?thesis
    using assms(2-5)
    by (simp add: get_data_miss[OF miss] month_window_valid try_block_table[OF fetched]
        scan_rows_examples cache_enabled_cfg0 write_time_env_page del: scan_rows.simps)
qed

lemma unit_down_example:
  assumes "fs (get_cache_path year month) = None"
    and "1 \<le> year" "year \<le> 9998" "1 \<le> month" "month \<le> 12"
  shows "get_data_for_month cfg0 env_down year month fs =
     (Inr [], fs,
      [Http_get year month, Log (Warning_retrying RequestException 2), Sleep 2,
       Http_get year month, Log (Warning_retrying RequestException 4), Sleep 4,
       Http_get year month, Log (Error_failed_to_fetch year month RequestException)])"
proof -
  have miss: "\<not> (cache_enabled cfg0 \<and> is_cache_valid cfg0 (now env_down) fs (get_cache_path year month))"
    using assms(1) by (simp add: is_cache_valid_def)
  have failed: "fetch_data cfg0 env_down year month =
      (Inl RequestException,
       [Http_get year month, Log (Warning_retrying RequestException 2), Sleep 2,
        Http_get year month, Log (Warning_retrying RequestException 4), Sleep 4,
        Http_get year month])"
    by (rule fetch_data_all_fail) (simp_all add: env_down_def)
  show ?thesis
    using assms(2-5)
    by (simp add: get_data_miss[OF miss] month_window_valid try_block_fetch_fails[OF failed])
qed

lemma envs0_simps:
  "envs0 (2024, 1) = env_page (Table [row0 ''D'' ''ACME'' ''$25,000''])"
  "envs0 (2024, 2) = env_down"
  "envs0 (2024, 3) = env_page (Table [row0 ''D'' ''ACME'' ''$25,000''])"
  by (simp_all add: envs0_def)

lemma run_units_example:
  "fst (run_units cfg0 envs0 [(2024, 1), (2024, 2), (2024, 3)] no_files) =
     [Inr [tuple0 ''ACME'' ''$25,000''], Inr [], Inr [tuple0 ''ACME'' ''$25,000'']]"
  by (simp add: envs0_simps unit_table_example unit_down_example no_files_def
      get_cache_path_def)

theorem aggregate_keeps_duplicates_across_units_witness:
  "fst (scrape cfg0 envs0 2024 3 no_files) =
     [tuple0 ''ACME'' ''$25,000'', tuple0 ''ACME'' ''$25,000'']
   \<and> count_list (fst (scrape cfg0 envs0 2024 3 no_files)) (tuple0 ''ACME'' ''$25,000'') = 2"
proof -
  obtain rs fs' es where run: "run_units cfg0 envs0 (work_units cfg0 2024 3) no_files = (rs, fs', es)"
    using prod_cases3 by blast
  have rs: "rs = [Inr [tuple0 ''ACME'' ''$25,000''], Inr [], Inr [tuple0 ''ACME'' ''$25,000'']]"
    using run run_units_example by (simp add: work_units_example)
  show ?thesis
    using aggregate_keeps_duplicates_across_units[OF run, of "tuple0 ''ACME'' ''$25,000''"]
    by (simp add: rs)
qed

lemma is_cache_valid_local:
  "fs1 p = fs p \<Longrightarrow> is_cache_valid cfg t fs1 p = is_cache_valid cfg t fs p"
  by (simp add: is_cache_valid_def)

text \<open>
  C4. When the block of fetching, parsing and filtering raises (as it does when all three
  requests fail), \<^verbatim>\<open>_get_data_for_month\<close> returns the empty set, its last effect
  being the error in the log, and raises nothing. In a run the unit's result is the empty
  set; every other unit returns what it returns in the run without that unit, with the
  same files and effects; and the aggregate, and so its size, is that of the run without
  the unit.
\<close>

theorem failed_unit_is_isolated:
  assumes miss:
      "\<not> (cache_enabled cfg
          \<and> is_cache_valid cfg (now (envs u)) fs (get_cache_path (fst u) (snd u)))"
    and valid: "month_window (fst u) (snd u) = Inr url"
    and raises: "try_block cfg (envs u) (fst u) (snd u) fs = (Inl e, fs_t, es_t)"
    and first: "u \<notin> set earlier"
  shows "get_data_for_month cfg (envs u) (fst u) (snd u) fs =
           (Inr [], fs, es_t @ [Log (Error_failed_to_fetch (fst u) (snd u) e)])
     \<and> (\<exists>rs1 f1 e1 rs2 f2 e2.
           run_units cfg envs earlier fs = (rs1, f1, e1)
           \<and> run_units cfg envs later f1 = (rs2, f2, e2)
           \<and> length rs1 = length earlier \<and> length rs2 = length later
           \<and> run_units cfg envs (earlier @ later) fs = (rs1 @ rs2, f2, e1 @ e2)
           \<and> run_units cfg envs (earlier @ u # later) fs =
               (rs1 @ Inr [] # rs2, f2,
                e1 @ (es_t @ [Log (Error_failed_to_fetch (fst u) (snd u) e)]) @ e2)
           \<and> aggregate (rs1 @ Inr [] # rs2) = aggregate (rs1 @ rs2))
     \<and> (work_units cfg current_year current_month = earlier @ u # later \<longrightarrow>
           fst (scrape cfg envs current_year current_month fs) =
             fst (aggregate (fst (run_units cfg envs (earlier @ later) fs)))
           \<and> length (fst (scrape cfg envs current_year current_month fs)) =
               length (fst (aggregate (fst (run_units cfg envs (earlier @ later) fs)))))
     \<and> (\<forall>ev year month fs0 e0 e1 e2.
           responses ev 0 = Inl e0 \<and> responses ev 1 = Inl e1 \<and> responses ev 2 = Inl e2 \<longrightarrow>
           try_block cfg ev year month fs0 =
             (Inl e2, fs0,
              [Http_get year month, Log (Warning_retrying e0 2), Sleep 2,
               Http_get year month, Log (Warning_retrying e1 4), Sleep 4,
               Http_get year month]))"
proof -
  let ?p = "get_cache_path (fst u) (snd u)"
  let ?esu = "es_t @ [Log (Error_failed_to_fetch (fst u) (snd u) e)]"
  have silent: "get_data_for_month cfg (envs u) (fst u) (snd u) fs1 = (Inr [], fs1, ?esu)"
    if "fs1 ?p = fs ?p" for fs1
  proof -
    have m: "\<not> (cache_enabled cfg \<and> is_cache_valid cfg (now (envs u)) fs1 ?p)"
      using miss is_cache_valid_local[of fs1 ?p fs cfg "now (envs u)"] that by simp
    have t: "try_block cfg (envs u) (fst u) (snd u) fs1 = (Inl e, fs1, es_t)"
      using try_block_raises_keeps_files[OF raises] by blast
    show ?thesis by (simp add: get_data_miss[OF m] valid t)
  qed
  have unit: "get_data_for_month cfg (envs u) (fst u) (snd u) fs = (Inr [], fs, ?esu)"
    by (rule silent) simp
  obtain rs1 f1 e1 rs2 f2 e2 where
    r: "run_units cfg envs earlier fs = (rs1, f1, e1)"
      "run_units cfg envs later f1 = (rs2, f2, e2)"
      "length rs1 = length earlier" "length rs2 = length later"
      "run_units cfg envs (earlier @ later) fs = (rs1 @ rs2, f2, e1 @ e2)"
      "run_units cfg envs (earlier @ u # later) fs = (rs1 @ Inr [] # rs2, f2, e1 @ ?esu @ e2)"
    using run_units_skip[of u earlier fs cfg envs "Inr []" ?esu later, OF first silent] by blast
  have agg: "aggregate (rs1 @ Inr [] # rs2) = aggregate (rs1 @ rs2)"
    by (simp add: aggregate_append[of rs1] split: prod.splits)
  have sc: "fst (scrape cfg envs current_year current_month fs) =
             fst (aggregate (fst (run_units cfg envs (earlier @ later) fs)))"
    if "work_units cfg current_year current_month = earlier @ u # later"
    by (simp add: fst_scrape that r agg)
  have retry: "try_block cfg ev year month fs0 =
             (Inl e2, fs0,
              [Http_get year month, Log (Warning_retrying e0 2), Sleep 2,
               Http_get year month, Log (Warning_retrying e1 4), Sleep 4,
               Http_get year month])"
    if "responses ev 0 = Inl e0" "responses ev 1 = Inl e1" "responses ev 2 = Inl e2"
    for ev year month fs0 e0 e1 e2
    by (rule try_block_fetch_fails) (rule fetch_data_all_fail[OF that])
  show ?thesis
    apply (intro conjI)
       apply (rule unit)
    using r agg apply blast
    using sc apply simp
    using retry apply blast
    done
qed

theorem failed_unit_is_isolated_witness:
  "get_data_for_month cfg0 (envs0 (2024, 2)) 2024 2 no_files =
     (Inr [], no_files,
      [Http_get 2024 2, Log (Warning_retrying RequestException 2), Sleep 2,
       Http_get 2024 2, Log (Warning_retrying RequestException 4), Sleep 4,
       Http_get 2024 2, Log (Error_failed_to_fetch 2024 2 RequestException)])
   \<and> fst (scrape cfg0 envs0 2024 3 no_files) =
       fst (aggregate (fst (run_units cfg0 envs0 [(2024, 1), (2024, 3)] no_files)))
   \<and> fst (run_units cfg0 envs0 [(2024, 1), (2024, 3)] no_files) =
       [Inr [tuple0 ''ACME'' ''$25,000''], Inr [tuple0 ''ACME'' ''$25,000'']]
   \<and> length (fst (scrape cfg0 envs0 2024 3 no_files)) = 2"
proof -
  let ?es = "[Http_get 2024 2, Log (Warning_retrying RequestException 2), Sleep 2,
       Http_get 2024 2, Log (Warning_retrying RequestException 4), Sleep 4,
       Http_get 2024 2]"
  have miss: "\<not> (cache_enabled cfg0
       \<and> is_cache_valid cfg0 (now (envs0 (2024, 2))) no_files
           (get_cache_path (fst ((2024, 2) :: int \<times> int)) (snd ((2024, 2) :: int \<times> int))))"
    by (simp add: no_files_miss)
  have valid: "month_window (fst ((2024, 2) :: int \<times> int)) (snd ((2024, 2) :: int \<times> int)) = Inr (2024, 2)"
    by (simp add: month_window_def)
  have failed: "fetch_data cfg0 env_down 2024 2 = (Inl RequestException, ?es)"
    by (rule fetch_data_all_fail) (simp_all add: env_down_def)
  have raises: "try_block cfg0 (envs0 (2024, 2)) (fst ((2024, 2) :: int \<times> int)) (snd ((2024, 2) :: int \<times> int)) no_files =
      (Inl RequestException, no_files, ?es)"
    by (simp add: envs0_simps try_block_fetch_fails[OF failed])
  have first: "((2024, 2) :: int \<times> int) \<notin> set [(2024, 1)]" by simp
  have wu: "work_units cfg0 2024 3 = [(2024, 1)] @ (2024, 2) # [(2024, 3)]"
    by (simp add: work_units_example)
  have others: "fst (run_units cfg0 envs0 [(2024, 1), (2024, 3)] no_files) =
       [Inr [tuple0 ''ACME'' ''$25,000''], Inr [tuple0 ''ACME'' ''$25,000'']]"
    by (simp add: envs0_simps unit_table_example no_files_def get_cache_path_def)
  note th = failed_unit_is_isolated[where cfg = cfg0 and envs = envs0 and u = "(2024, 2)"
      and fs = no_files and earlier = "[(2024, 1)]" and later = "[(2024, 3)]"
      and current_year = 2024 and current_month = 3, OF miss valid raises first]
  have 1: "get_data_for_month cfg0 (envs0 (2024, 2)) 2024 2 no_files =
     (Inr [], no_files, ?es @ [Log (Error_failed_to_fetch 2024 2 RequestException)])"
    using th by simp
  have 2: "fst (scrape cfg0 envs0 2024 3 no_files) =
       fst (aggregate (fst (run_units cfg0 envs0 [(2024, 1), (2024, 3)] no_files)))"
    using th wu by simp
  show ?thesis using 1 2 others by simp
qed

text \<open>
  C10. With caching enabled, a fresh cache file whose content cannot be deserialized makes
  \<^verbatim>\<open>_get_data_for_month\<close> raise the exception of the read: there is no request and
  no other effect, and the files are unchanged. In a run the exception is the unit's
  result; the loop over the futures logs it and adds nothing to the aggregate, and every
  other unit returns what it returns in the run without that unit.
\<close>

theorem corrupt_fresh_cache_raises:
  assumes en: "cache_enabled cfg"
    and stored: "fs (get_cache_path (fst u) (snd u)) = Some f"
    and fresh: "flt (cache_age (now (envs u)) f) (Finite (of_int (cache_max_age cfg * 3600)))"
    and corrupt: "content f = Inl e"
    and first: "u \<notin> set earlier"
  shows "get_data_for_month cfg (envs u) (fst u) (snd u) fs = (Inl e, fs, [])
     \<and> (\<exists>rs1 f1 e1 rs2 f2 e2.
           run_units cfg envs earlier fs = (rs1, f1, e1)
           \<and> run_units cfg envs later f1 = (rs2, f2, e2)
           \<and> length rs1 = length earlier \<and> length rs2 = length later
           \<and> run_units cfg envs (earlier @ later) fs = (rs1 @ rs2, f2, e1 @ e2)
           \<and> run_units cfg envs (earlier @ u # later) fs = (rs1 @ Inl e # rs2, f2, e1 @ e2)
           \<and> fst (aggregate (rs1 @ Inl e # rs2)) = fst (aggregate (rs1 @ rs2))
           \<and> snd (aggregate (rs1 @ Inl e # rs2)) =
               snd (aggregate rs1) @ Log (Error_in_future e) # snd (aggregate rs2))
     \<and> (work_units cfg current_year current_month = earlier @ u # later \<longrightarrow>
           fst (scrape cfg envs current_year current_month fs) =
             fst (aggregate (fst (run_units cfg envs (earlier @ later) fs)))
           \<and> Log (Error_in_future e)
               \<in> set (snd (snd (scrape cfg envs current_year current_month fs))))"
proof -
  let ?p = "get_cache_path (fst u) (snd u)"
  have silent: "get_data_for_month cfg (envs u) (fst u) (snd u) fs1 = (Inl e, fs1, [])"
    if "fs1 ?p = fs ?p" for fs1
    using get_data_hit[of cfg fs1 "fst u" "snd u" f "envs u"] en stored fresh corrupt that
    by simp
  have unit: "get_data_for_month cfg (envs u) (fst u) (snd u) fs = (Inl e, fs, [])"
    by (rule silent) simp
  obtain rs1 f1 e1 rs2 f2 e2 where
    r: "run_units cfg envs earlier fs = (rs1, f1, e1)"
      "run_units cfg envs later f1 = (rs2, f2, e2)"
      "length rs1 = length earlier" "length rs2 = length later"
      "run_units cfg envs (earlier @ later) fs = (rs1 @ rs2, f2, e1 @ e2)"
      "run_units cfg envs (earlier @ u # later) fs = (rs1 @ Inl e # rs2, f2, e1 @ [] @ e2)"
    using run_units_skip[of u earlier fs cfg envs "Inl e" "[]" later, OF first silent] by blast
  have agg1: "fst (aggregate (rs1 @ Inl e # rs2)) = fst (aggregate (rs1 @ rs2))"
    by (simp add: aggregate_append[of rs1] split: prod.splits)
  have agg2: "snd (aggregate (rs1 @ Inl e # rs2)) =
               snd (aggregate rs1) @ Log (Error_in_future e) # snd (aggregate rs2)"
    by (simp add: aggregate_append[of rs1] split: prod.splits)
  have sc: "fst (scrape cfg envs current_year current_month fs) =
             fst (aggregate (fst (run_units cfg envs (earlier @ later) fs)))
           \<and> Log (Error_in_future e)
               \<in> set (snd (snd (scrape cfg envs current_year current_month fs)))"
    if "work_units cfg current_year current_month = earlier @ u # later"
  proof -
    have "Log (Error_in_future e) \<in> set (snd (aggregate (rs1 @ Inl e # rs2)))"
      by (simp add: agg2)
    then show ?thesis
      using that r agg1 by (auto simp add: scrape_def split: prod.splits)
  qed
  show ?thesis
    apply (intro conjI)
      apply (rule unit)
    using r agg1 agg2 apply auto[1]
    using sc apply simp
    done
qed

theorem corrupt_fresh_cache_raises_witness:
  "get_data_for_month cfg0 (envs0 (2024, 2)) 2024 2
       (one_file 2024 2 1699996400 (Inl JSONDecodeError)) =
     (Inl JSONDecodeError, one_file 2024 2 1699996400 (Inl JSONDecodeError), [])
   \<and> fst (scrape cfg0 envs0 2024 3 (one_file 2024 2 1699996400 (Inl JSONDecodeError))) =
       fst (aggregate (fst (run_units cfg0 envs0 [(2024, 1), (2024, 3)]
                              (one_file 2024 2 1699996400 (Inl JSONDecodeError)))))
   \<and> fst (run_units cfg0 envs0 [(2024, 1), (2024, 3)]
            (one_file 2024 2 1699996400 (Inl JSONDecodeError))) =
       [Inr [tuple0 ''ACME'' ''$25,000''], Inr [tuple0 ''ACME'' ''$25,000'']]
   \<and> Log (Error_in_future JSONDecodeError)
       \<in> set (snd (snd (scrape cfg0 envs0 2024 3
                          (one_file 2024 2 1699996400 (Inl JSONDecodeError)))))"
proof -
  let ?fs = "one_file 2024 2 1699996400 (Inl JSONDecodeError)"
  let ?f = "\<lparr> mtime = 1699996400, content = Inl JSONDecodeError \<rparr> :: cache_file"
  have en: "cache_enabled cfg0" by (rule cache_enabled_cfg0)
  have stored: "?fs (get_cache_path (fst ((2024, 2) :: int \<times> int)) (snd ((2024, 2) :: int \<times> int))) = Some ?f"
    by (simp add: one_file_def)
  have age: "cache_age (now (envs0 (2024, 2))) ?f = Finite 3600"
    using b64_round_int[of 3600] by (simp add: cache_age_def envs0_simps env_down_def)
  have fresh: "flt (cache_age (now (envs0 (2024, 2))) ?f)
                 (Finite (of_int (cache_max_age cfg0 * 3600)))"
    by (simp add: age cfg0_def)
  have corrupt: "content ?f = Inl JSONDecodeError" by simp
  have first: "((2024, 2) :: int \<times> int) \<notin> set [(2024, 1)]" by simp
  have wu: "work_units cfg0 2024 3 = [(2024, 1)] @ (2024, 2) # [(2024, 3)]"
    by (simp add: work_units_example)
  have others: "fst (run_units cfg0 envs0 [(2024, 1), (2024, 3)] ?fs) =
       [Inr [tuple0 ''ACME'' ''$25,000''], Inr [tuple0 ''ACME'' ''$25,000'']]"
    by (simp add: envs0_simps unit_table_example one_file_def no_files_def get_cache_path_def)
  note th = corrupt_fresh_cache_raises[where cfg = cfg0 and envs = envs0 and u = "(2024, 2)"
      and fs = "?fs" and earlier = "[(2024, 1)]" and later = "[(2024, 3)]"
      and current_year = 2024 and current_month = 3, OF en stored fresh corrupt first]
  have 1: "get_data_for_month cfg0 (envs0 (2024, 2)) 2024 2 ?fs = (Inl JSONDecodeError, ?fs, [])"
    using th by simp
  have 2: "fst (scrape cfg0 envs0 2024 3 ?fs) =
       fst (aggregate (fst (run_units cfg0 envs0 [(2024, 1), (2024, 3)] ?fs)))
     \<and> Log (Error_in_future JSONDecodeError) \<in> set (snd (snd (scrape cfg0 envs0 2024 3 ?fs)))"
    using th wu by simp
  show ?thesis using 1 2 others by simp
qed

end
